theory Spec2Isabelle
  imports Complex_Main
begin

section \<open>JavaScript numbers\<close>

text \<open>
  The terrain analysis engine (\<^verbatim>\<open>src/lib/geo-math.ts\<close>) computes on JavaScript
  \<^verbatim>\<open>number\<close>s. A number is modelled as a finite real or one of the three special
  values of IEEE 754. Finite arithmetic is exact: rounding, overflow and the sign of zero
  are not modelled. The special values follow the IEEE rules, because the code produces
  them itself (the \<^verbatim>\<open>Infinity\<close> defaults of a missing bounding box, a division by a
  zero extent, the read of a raster cell that does not exist).

  Two properties depend on rounding: the symmetry of the distance and the area of a
  reversed ring. For these, \<^verbatim>\<open>haversineDistance\<close> and \<^verbatim>\<open>calculatePolygonArea\<close> are given a
  second time, over binary64 arithmetic, in which every operation rounds its result.
\<close>

datatype jsnum = Fin real | PosInf | NegInf | NaN


fun jsneg :: "jsnum \<Rightarrow> jsnum" where
  "jsneg (Fin a) = Fin (- a)"
| "jsneg PosInf = NegInf"
| "jsneg NegInf = PosInf"
| "jsneg NaN = NaN"

fun jsadd :: "jsnum \<Rightarrow> jsnum \<Rightarrow> jsnum" where
  "jsadd NaN _ = NaN"
| "jsadd _ NaN = NaN"
| "jsadd (Fin a) (Fin b) = Fin (a + b)"
| "jsadd PosInf NegInf = NaN"
| "jsadd NegInf PosInf = NaN"
| "jsadd PosInf _ = PosInf"
| "jsadd _ PosInf = PosInf"
| "jsadd NegInf _ = NegInf"
| "jsadd _ NegInf = NegInf"

text \<open>The sign of a number that is not NaN: \<open>-1\<close>, \<open>0\<close> or \<open>1\<close>.\<close>

fun jssign :: "jsnum \<Rightarrow> int" where
  "jssign (Fin a) = (if a < 0 then - 1 else if a = 0 then 0 else 1)"
| "jssign PosInf = 1"
| "jssign NegInf = - 1"
| "jssign NaN = 0"

fun jsmul :: "jsnum \<Rightarrow> jsnum \<Rightarrow> jsnum" where
  "jsmul NaN _ = NaN"
| "jsmul _ NaN = NaN"
| "jsmul (Fin a) (Fin b) = Fin (a * b)"
| "jsmul x y =
     (if jssign x * jssign y = 0 then NaN
      else if jssign x * jssign y > 0 then PosInf else NegInf)"

text \<open>
  Division. A finite number over zero is an infinity (NaN for \<open>0/0\<close>), a finite number
  over an infinity is zero, an infinity over an infinity is NaN. Zero counts as \<open>+0\<close>.
\<close>

fun jsdiv :: "jsnum \<Rightarrow> jsnum \<Rightarrow> jsnum" where
  "jsdiv NaN _ = NaN"
| "jsdiv _ NaN = NaN"
| "jsdiv (Fin a) (Fin b) =
     (if b = 0 then (if a = 0 then NaN else if a > 0 then PosInf else NegInf)
      else Fin (a / b))"
| "jsdiv (Fin a) _ = Fin 0"
| "jsdiv PosInf (Fin b) = (if b \<ge> 0 then PosInf else NegInf)"
| "jsdiv NegInf (Fin b) = (if b \<ge> 0 then NegInf else PosInf)"
| "jsdiv _ _ = NaN"

text \<open>Comparisons: every comparison with NaN is false.\<close>

fun jslt :: "jsnum \<Rightarrow> jsnum \<Rightarrow> bool" where
  "jslt NaN _ = False"
| "jslt _ NaN = False"
| "jslt (Fin a) (Fin b) = (a < b)"
| "jslt PosInf _ = False"
| "jslt _ NegInf = False"
| "jslt _ PosInf = True"
| "jslt NegInf _ = True"

fun jsle :: "jsnum \<Rightarrow> jsnum \<Rightarrow> bool" where
  "jsle NaN _ = False"
| "jsle _ NaN = False"
| "jsle (Fin a) (Fin b) = (a \<le> b)"
| "jsle NegInf _ = True"
| "jsle _ PosInf = True"
| "jsle _ _ = False"

fun jsabs :: "jsnum \<Rightarrow> jsnum" where
  "jsabs (Fin a) = Fin \<bar>a\<bar>"
| "jsabs NaN = NaN"
| "jsabs _ = PosInf"

instantiation jsnum :: "{plus, minus, uminus, times, inverse, abs, ord}"
begin

definition plus_jsnum :: "jsnum \<Rightarrow> jsnum \<Rightarrow> jsnum" where
  "plus_jsnum x y = jsadd x y"

definition uminus_jsnum :: "jsnum \<Rightarrow> jsnum" where
  "uminus_jsnum x = jsneg x"

definition minus_jsnum :: "jsnum \<Rightarrow> jsnum \<Rightarrow> jsnum" where
  "minus_jsnum x y = jsadd x (jsneg y)"

definition times_jsnum :: "jsnum \<Rightarrow> jsnum \<Rightarrow> jsnum" where
  "times_jsnum x y = jsmul x y"

definition divide_jsnum :: "jsnum \<Rightarrow> jsnum \<Rightarrow> jsnum" where
  "divide_jsnum x y = jsdiv x y"

definition inverse_jsnum :: "jsnum \<Rightarrow> jsnum" where
  "inverse_jsnum x = jsdiv (Fin 1) x"

definition abs_jsnum :: "jsnum \<Rightarrow> jsnum" where
  "abs_jsnum x = jsabs x"

definition less_jsnum :: "jsnum \<Rightarrow> jsnum \<Rightarrow> bool" where
  "less_jsnum x y = jslt x y"

definition less_eq_jsnum :: "jsnum \<Rightarrow> jsnum \<Rightarrow> bool" where
  "less_eq_jsnum x y = jsle x y"

instance ..

end

text \<open>Strict equality \<^verbatim>\<open>===\<close> of two numbers: NaN equals nothing, itself included.\<close>

definition numEq :: "jsnum \<Rightarrow> jsnum \<Rightarrow> bool" where
  "numEq x y = (x \<noteq> NaN \<and> x = y)"

subsection \<open>The functions of \<^verbatim>\<open>Math\<close>\<close>

fun Math_floor :: "jsnum \<Rightarrow> jsnum" where
  "Math_floor (Fin a) = Fin (of_int \<lfloor>a\<rfloor>)"
| "Math_floor x = x"

fun Math_ceil :: "jsnum \<Rightarrow> jsnum" where
  "Math_ceil (Fin a) = Fin (of_int \<lceil>a\<rceil>)"
| "Math_ceil x = x"

fun Math_max :: "jsnum \<Rightarrow> jsnum \<Rightarrow> jsnum" where
  "Math_max NaN _ = NaN"
| "Math_max _ NaN = NaN"
| "Math_max x y = (if jslt x y then y else x)"

fun Math_min :: "jsnum \<Rightarrow> jsnum \<Rightarrow> jsnum" where
  "Math_min NaN _ = NaN"
| "Math_min _ NaN = NaN"
| "Math_min x y = (if jslt y x then y else x)"

fun Math_sin :: "jsnum \<Rightarrow> jsnum" where
  "Math_sin (Fin a) = Fin (sin a)"
| "Math_sin _ = NaN"

fun Math_cos :: "jsnum \<Rightarrow> jsnum" where
  "Math_cos (Fin a) = Fin (cos a)"
| "Math_cos _ = NaN"

fun Math_sqrt :: "jsnum \<Rightarrow> jsnum" where
  "Math_sqrt (Fin a) = (if a < 0 then NaN else Fin (sqrt a))"
| "Math_sqrt PosInf = PosInf"
| "Math_sqrt _ = NaN"

text \<open>The angle of the point \<open>(x, y)\<close>, for finite arguments.\<close>

definition atan2 :: "real \<Rightarrow> real \<Rightarrow> real" where
  "atan2 y x =
     (if x > 0 then arctan (y / x)
      else if x < 0 then (if y \<ge> 0 then arctan (y / x) + pi else arctan (y / x) - pi)
      else if y > 0 then pi / 2
      else if y < 0 then - (pi / 2)
      else 0)"

fun Math_atan2 :: "jsnum \<Rightarrow> jsnum \<Rightarrow> jsnum" where
  "Math_atan2 NaN _ = NaN"
| "Math_atan2 _ NaN = NaN"
| "Math_atan2 (Fin y) (Fin x) = Fin (atan2 y x)"
| "Math_atan2 (Fin y) PosInf = Fin 0"
| "Math_atan2 (Fin y) NegInf = (if y \<ge> 0 then Fin pi else Fin (- pi))"
| "Math_atan2 PosInf (Fin x) = Fin (pi / 2)"
| "Math_atan2 NegInf (Fin x) = Fin (- (pi / 2))"
| "Math_atan2 PosInf PosInf = Fin (pi / 4)"
| "Math_atan2 PosInf NegInf = Fin (3 * pi / 4)"
| "Math_atan2 NegInf PosInf = Fin (- (pi / 4))"
| "Math_atan2 NegInf NegInf = Fin (- (3 * pi / 4))"

section \<open>GeodesicMath\<close>

text \<open>A coordinate \<^verbatim>\<open>[longitude, latitude]\<close>, in degrees.\<close>

type_synonym coord = "jsnum \<times> jsnum"

definition haversineDistance :: "coord \<Rightarrow> coord \<Rightarrow> jsnum" where
  "haversineDistance coords1 coords2 =
     (let R = Fin 6371;
          dLat = ((snd coords2 - snd coords1) * Fin pi) / Fin 180;
          dLon = ((fst coords2 - fst coords1) * Fin pi) / Fin 180;
          lat1 = (snd coords1 * Fin pi) / Fin 180;
          lat2 = (snd coords2 * Fin pi) / Fin 180;
          a = Math_sin (dLat / Fin 2) * Math_sin (dLat / Fin 2) +
              Math_sin (dLon / Fin 2) * Math_sin (dLon / Fin 2) * Math_cos lat1 * Math_cos lat2;
          c = Fin 2 * Math_atan2 (Math_sqrt a) (Math_sqrt (Fin 1 - a))
      in R * c)"


definition calculateLineDistance :: "coord list \<Rightarrow> jsnum" where
  "calculateLineDistance coordinates =
     foldl (\<lambda>totalDistance i.
              totalDistance + haversineDistance (coordinates ! i) (coordinates ! (i + 1)))
       (Fin 0) [0..<length coordinates - 1]"

definition calculatePolygonArea :: "coord list \<Rightarrow> jsnum" where
  "calculatePolygonArea coordinates =
     (if length coordinates < 3 then Fin 0
      else
        let R2 = Fin 6371000 * Fin 6371000;
            area = foldl (\<lambda>area i.
                     let p1 = coordinates ! i;
                         p2 = coordinates ! ((i + 1) mod length coordinates);
                         p1_rad = (fst p1 * Fin pi / Fin 180, snd p1 * Fin pi / Fin 180);
                         p2_rad = (fst p2 * Fin pi / Fin 180, snd p2 * Fin pi / Fin 180)
                     in area + (fst p2_rad - fst p1_rad) *
                               (Fin 2 + Math_sin (snd p1_rad) + Math_sin (snd p2_rad)))
                   (Fin 0) [0..<length coordinates]
        in \<bar>area * R2 / Fin 2\<bar>)"

section \<open>DemSampler\<close>

text \<open>
  A value read by the sampler: a number, \<^verbatim>\<open>null\<close>, or \<^verbatim>\<open>undefined\<close> (what the read
  of a typed array gives at an index it does not have).
\<close>

datatype jsval = JNull | JUndefined | JNum jsnum

fun strictEq :: "jsval \<Rightarrow> jsval \<Rightarrow> bool" where
  "strictEq (JNum x) v = (case v of JNum y \<Rightarrow> numEq x y | _ \<Rightarrow> False)"
| "strictEq JNull v = (v = JNull)"
| "strictEq JUndefined v = (v = JUndefined)"

text \<open>In arithmetic \<^verbatim>\<open>undefined\<close> converts to NaN and \<^verbatim>\<open>null\<close> to zero.\<close>

fun toNumber :: "jsval \<Rightarrow> jsnum" where
  "toNumber (JNum x) = x"
| "toNumber JUndefined = NaN"
| "toNumber JNull = Fin 0"

type_synonym BBox = "jsnum \<times> jsnum \<times> jsnum \<times> jsnum"

text \<open>
  \<^verbatim>\<open>DemData\<close>: the raster \<^verbatim>\<open>values\<close> (a \<^verbatim>\<open>Float32Array\<close>, row-major), its dimensions,
  its extent in the raster's own coordinates and in longitude and latitude, the no-data
  value (a number or \<^verbatim>\<open>null\<close>) and the optional forward projection.
\<close>

record DemData =
  rasterValues :: "jsnum list"
  width :: nat
  height :: nat
  bbox :: BBox
  wgs84Bbox :: BBox
  noDataValue :: jsval
  projConverter :: "(coord \<Rightarrow> coord) option"

text \<open>\<^verbatim>\<open>values[index]\<close>: the element when the index is one of the array's, else \<^verbatim>\<open>undefined\<close>.\<close>

fun typedArrayGet :: "jsnum list \<Rightarrow> jsnum \<Rightarrow> jsval" where
  "typedArrayGet vs (Fin r) =
     (if r = of_int \<lfloor>r\<rfloor> \<and> 0 \<le> r \<and> nat \<lfloor>r\<rfloor> < length vs then JNum (vs ! nat \<lfloor>r\<rfloor>) else JUndefined)"
| "typedArrayGet vs _ = JUndefined"

definition applyProj :: "DemData \<Rightarrow> coord \<Rightarrow> coord" where
  "applyProj dem c = (case projConverter dem of Some conv \<Rightarrow> conv c | None \<Rightarrow> c)"

text \<open>Lines 117 and 118: \<open>(xPercent, yPercent)\<close> of a projected point in a bounding box.\<close>

definition cellFraction :: "BBox \<Rightarrow> coord \<Rightarrow> jsnum \<times> jsnum" where
  "cellFraction box p =
     (case box of (minX, minY, maxX, maxY) \<Rightarrow>
        ((fst p - minX) / (maxX - minX), (maxY - snd p) / (maxY - minY)))"

text \<open>Lines 120 and 121: the column and the row \<open>(px, py)\<close> of a projected point.\<close>

definition cellIndices :: "DemData \<Rightarrow> coord \<Rightarrow> jsnum \<times> jsnum" where
  "cellIndices dem p =
     (let xPercent = fst (cellFraction (bbox dem) p);
          yPercent = snd (cellFraction (bbox dem) p)
      in (Math_floor (xPercent * Fin (real (width dem))),
          Math_floor (yPercent * Fin (real (height dem)))))"

text \<open>
  The first half of \<^verbatim>\<open>getElevationFromDem\<close> (lines 99 to 127): the two bounding box
  tests, the cell and the range test. \<open>None\<close> is the early \<^verbatim>\<open>return null\<close>,
  \<open>Some index\<close> the index of the cell the query resolves to.
\<close>

definition demCell :: "jsnum \<Rightarrow> jsnum \<Rightarrow> DemData \<Rightarrow> jsnum option" where
  "demCell lon lat dem =
     (case wgs84Bbox dem of (w0, w1, w2, w3) \<Rightarrow>
      if lon < w0 \<or> lon > w2 \<or> lat < w1 \<or> lat > w3 then None
      else
        let projCoords = applyProj dem (lon, lat);
            projX = fst projCoords;
            projY = snd projCoords
        in case bbox dem of (minX, minY, maxX, maxY) \<Rightarrow>
           if projX < minX \<or> projX > maxX \<or> projY < minY \<or> projY > maxY then None
           else
             let px = fst (cellIndices dem projCoords);
                 py = snd (cellIndices dem projCoords)
             in if px < Fin 0 \<or> px \<ge> Fin (real (width dem)) \<or>
                   py < Fin 0 \<or> py \<ge> Fin (real (height dem)) then None
                else Some (py * Fin (real (width dem)) + px))"

definition getElevationFromDem :: "jsnum \<Rightarrow> jsnum \<Rightarrow> DemData \<Rightarrow> jsval" where
  "getElevationFromDem lon lat dem =
     (case demCell lon lat dem of
        None \<Rightarrow> JNull
      | Some index \<Rightarrow>
          let elevation = typedArrayGet (rasterValues dem) index
          in if strictEq elevation (noDataValue dem) then JNull else elevation)"

section \<open>ProfileExtractor\<close>

record ProfileSample =
  distance :: jsnum
  elevation :: jsval

text \<open>The values of \<open>j\<close> in \<^verbatim>\<open>for (let j = 1; j <= n; j++)\<close>. With \<open>n\<close> NaN or negative the
  loop does not run. With \<open>n = Infinity\<close> it would not end: \<open>numSegmentSamples\<close> is never
  infinite (lemma \<open>numSegmentSamples_cases\<close> below).\<close>

fun sampleIndices :: "jsnum \<Rightarrow> nat list" where
  "sampleIndices (Fin r) = [1..<nat \<lfloor>r\<rfloor> + 1]"
| "sampleIndices _ = []"

definition numSegmentSamples :: "real \<Rightarrow> jsnum \<Rightarrow> jsnum \<Rightarrow> jsnum" where
  "numSegmentSamples samples segmentDist totalDistanceKm =
     Math_max (Fin 2) (Math_ceil (Fin samples * (segmentDist / totalDistanceKm)))"

text \<open>The inner loop (lines 157 to 166) over one segment.\<close>

definition sampleSegment ::
  "DemData \<Rightarrow> coord \<Rightarrow> coord \<Rightarrow> jsnum \<Rightarrow> jsnum \<Rightarrow> jsnum \<Rightarrow> ProfileSample list \<Rightarrow> ProfileSample list" where
  "sampleSegment dem startPoint endPoint segmentDist accumulatedDist n profile =
     foldl (\<lambda>profile j.
              let t = Fin (real j) / n;
                  lon = fst startPoint + (fst endPoint - fst startPoint) * t;
                  lat = snd startPoint + (snd endPoint - snd startPoint) * t;
                  sampleDist = accumulatedDist + segmentDist * t;
                  elev = getElevationFromDem lon lat dem
              in if elev \<noteq> JNull
                 then profile @ [\<lparr>distance = sampleDist * Fin 1000, elevation = elev\<rparr>]
                 else profile)
       profile (sampleIndices n)"

text \<open>The outer loop (lines 151 to 168): the state is the profile and \<open>accumulatedDist\<close>.\<close>

definition sampleSegments ::
  "DemData \<Rightarrow> coord list \<Rightarrow> real \<Rightarrow> jsnum \<Rightarrow> ProfileSample list \<times> jsnum \<Rightarrow> ProfileSample list \<times> jsnum" where
  "sampleSegments dem coords samples totalDistanceKm st =
     foldl (\<lambda>(profile, accumulatedDist) i.
              let startPoint = coords ! i;
                  endPoint = coords ! (i + 1);
                  segmentDist = haversineDistance startPoint endPoint;
                  n = numSegmentSamples samples segmentDist totalDistanceKm
              in (sampleSegment dem startPoint endPoint segmentDist accumulatedDist n profile,
                  accumulatedDist + segmentDist))
       st [0..<length coords - 1]"

text \<open>
  \<^verbatim>\<open>getProfileFromDem(line, dem, samples)\<close>, on the coordinates of the line. \<open>None\<close> is
  \<^verbatim>\<open>null\<close>. The read \<^verbatim>\<open>coords[0]\<close> of an empty line is never reached: the length of an
  empty line is zero.
\<close>

definition getProfileFromDem :: "coord list \<Rightarrow> DemData \<Rightarrow> real \<Rightarrow> ProfileSample list option" where
  "getProfileFromDem coords dem samples =
     (let totalDistanceKm = calculateLineDistance coords
      in if numEq totalDistanceKm (Fin 0) then None
         else case coords of
           [] \<Rightarrow> None
         | c0 # _ \<Rightarrow>
             let startElev = getElevationFromDem (fst c0) (snd c0) dem;
                 profile0 = (if startElev \<noteq> JNull
                             then [\<lparr>distance = Fin 0, elevation = startElev\<rparr>] else []);
                 profile = fst (sampleSegments dem coords samples totalDistanceKm (profile0, Fin 0))
             in if length profile > 1 then Some profile else None)"


section \<open>VolumeEngine\<close>

definition isPointInPolygon :: "coord \<Rightarrow> coord list \<Rightarrow> bool" where
  "isPointInPolygon point vs =
     (let x = fst point; y = snd point
      in foldl (\<lambda>inside i.
                  let j = (if i = 0 then length vs - 1 else i - 1);
                      xi = fst (vs ! i); yi = snd (vs ! i);
                      xj = fst (vs ! j); yj = snd (vs ! j);
                      intersect = (((yi > y) \<noteq> (yj > y)) \<and>
                                   (x < (xj - xi) * (y - yi) / (yj - yi) + xi))
                  in if intersect then \<not> inside else inside)
           False [0..<length vs])"

type_synonym vec3 = "jsnum \<times> jsnum \<times> jsnum"

text \<open>\<^verbatim>\<open>solve3x3(A, b)\<close>; the matrix is given by its three rows. \<open>None\<close> is \<^verbatim>\<open>null\<close>.\<close>

definition solve3x3 :: "vec3 \<times> vec3 \<times> vec3 \<Rightarrow> vec3 \<Rightarrow> vec3 option" where
  "solve3x3 A b =
     (case A of ((A00, A01, A02), (A10, A11, A12), (A20, A21, A22)) \<Rightarrow>
      case b of (b0, b1, b2) \<Rightarrow>
      let detA = A00 * (A11 * A22 - A21 * A12) -
                 A01 * (A10 * A22 - A12 * A20) +
                 A02 * (A10 * A21 - A11 * A20)
      in if \<bar>detA\<bar> < Fin (1 / 10 ^ 9) then None
         else
           let invDetA = Fin 1 / detA;
               adj00 = (A11 * A22 - A21 * A12);
               adj01 = - (A01 * A22 - A02 * A21);
               adj02 = (A01 * A12 - A02 * A11);
               adj10 = - (A10 * A22 - A12 * A20);
               adj11 = (A00 * A22 - A02 * A20);
               adj12 = - (A00 * A12 - A10 * A02);
               adj20 = (A10 * A21 - A20 * A11);
               adj21 = - (A00 * A21 - A20 * A01);
               adj22 = (A00 * A11 - A10 * A01)
           in Some (invDetA * (adj00 * b0 + adj01 * b1 + adj02 * b2),
                    invDetA * (adj10 * b0 + adj11 * b1 + adj12 * b2),
                    invDetA * (adj20 * b0 + adj21 * b1 + adj22 * b2)))"

datatype VolumeCalcMethod = LowestPoint | AveragePerimeter | BestFit | FixedElevation

text \<open>The base plane: \<^verbatim>\<open>{ elevation }\<close> or \<^verbatim>\<open>{ a, b, c }\<close>.\<close>

datatype BasePlane = Flat jsnum | Tilted jsnum jsnum jsnum

text \<open>
  The polygon feature: \<^verbatim>\<open>polygon.geometry.coordinates[0]\<close>, the outer ring, and the
  optional \<^verbatim>\<open>polygon.bbox\<close>.
\<close>

record PolygonFeature =
  outerRing :: "coord list"
  featureBbox :: "BBox option"

record PerimeterPoint =
  wgs :: coord
  proj :: coord
  pointElevation :: jsval

record VolumeResult =
  cut :: jsnum
  fill :: jsnum
  net :: jsnum
  basePlane :: BasePlane
  resultMethod :: VolumeCalcMethod

text \<open>Lines 223 to 230: every vertex of the ring is sampled, the unresolved ones dropped.\<close>

definition perimeterPoints :: "coord list \<Rightarrow> DemData \<Rightarrow> PerimeterPoint list" where
  "perimeterPoints polyCoordsWgs dem =
     filter (\<lambda>p. pointElevation p \<noteq> JNull)
       (map (\<lambda>coord. \<lparr>wgs = coord, proj = applyProj dem coord,
                       pointElevation = getElevationFromDem (fst coord) (snd coord) dem\<rparr>)
          polyCoordsWgs)"

text \<open>\<^verbatim>\<open>Math.min(...xs)\<close>.\<close>

definition Math_min_list :: "jsnum list \<Rightarrow> jsnum" where
  "Math_min_list xs = foldl Math_min PosInf xs"

text \<open>Lines 234 to 258: the base plane of the method, \<open>None\<close> when \<^verbatim>\<open>basePlane\<close> stays \<^verbatim>\<open>null\<close>.\<close>

definition fitBasePlane ::
  "VolumeCalcMethod \<Rightarrow> jsnum option \<Rightarrow> PerimeterPoint list \<Rightarrow> BasePlane option" where
  "fitBasePlane method fixedElevation pts =
     (if method = LowestPoint then
        Some (Flat (Math_min_list (map (\<lambda>p. toNumber (pointElevation p)) pts)))
      else if method = AveragePerimeter then
        Some (Flat (foldl (\<lambda>sum p. sum + toNumber (pointElevation p)) (Fin 0) pts /
                    Fin (real (length pts))))
      else if method = FixedElevation \<and> fixedElevation \<noteq> None then
        Some (Flat (the fixedElevation))
      else if method = BestFit then
        (let n = Fin (real (length pts));
             acc = foldl (\<lambda>(sumX, sumY, sumZ, sumXY, sumX2, sumY2, sumXZ, sumYZ) p.
                      let x = fst (proj p); y = snd (proj p); z = toNumber (pointElevation p)
                      in (sumX + x, sumY + y, sumZ + z, sumXY + x * y, sumX2 + x * x,
                          sumY2 + y * y, sumXZ + x * z, sumYZ + y * z))
                    (Fin 0, Fin 0, Fin 0, Fin 0, Fin 0, Fin 0, Fin 0, Fin 0) pts
         in case acc of (sumX, sumY, sumZ, sumXY, sumX2, sumY2, sumXZ, sumYZ) \<Rightarrow>
            (case solve3x3 ((sumX2, sumXY, sumX), (sumXY, sumY2, sumY), (sumX, sumY, n))
                           (sumXZ, sumYZ, sumZ) of
               Some planeParams \<Rightarrow>
                 Some (Tilted (fst planeParams) (fst (snd planeParams)) (snd (snd planeParams)))
             | None \<Rightarrow> None))
      else None)"

text \<open>Line 262: the bounds of the grid, the feature's bounding box or the defaults.\<close>

definition gridBounds :: "PolygonFeature \<Rightarrow> BBox" where
  "gridBounds polygon =
     (case featureBbox polygon of
        Some b \<Rightarrow> b
      | None \<Rightarrow> (PosInf, PosInf, NegInf, NegInf))"

text \<open>The values of \<open>i\<close> in \<^verbatim>\<open>for (let i = 0; i < gridSize; i++)\<close>.\<close>

definition gridIndices :: "real \<Rightarrow> nat list" where
  "gridIndices gridSize = [0..<nat \<lceil>gridSize\<rceil>]"

text \<open>
  The state of the grid loops: the two volumes, and the points at which the loops have
  called the sampler so far.
\<close>

record GridState =
  cutVolume :: jsnum
  fillVolume :: jsnum
  sampled :: "coord list"

text \<open>The body of the inner loop (lines 281 to 304) at the cell \<open>(i, j)\<close>.\<close>

definition gridCell ::
  "PolygonFeature \<Rightarrow> DemData \<Rightarrow> real \<Rightarrow> BasePlane \<Rightarrow> GridState \<Rightarrow> nat \<times> nat \<Rightarrow> GridState" where
  "gridCell polygon dem gridSize plane st ij =
     (case gridBounds polygon of (minLon, minLat, maxLon, maxLat) \<Rightarrow>
      let i = fst ij; j = snd ij;
          bboxMinProj = applyProj dem (minLon, minLat);
          bboxMaxProj = applyProj dem (maxLon, maxLat);
          lonStep = (maxLon - minLon) / Fin gridSize;
          latStep = (maxLat - minLat) / Fin gridSize;
          projXStep = (fst bboxMaxProj - fst bboxMinProj) / Fin gridSize;
          projYStep = (snd bboxMaxProj - snd bboxMinProj) / Fin gridSize;
          centerLat = minLat + (maxLat - minLat) / Fin 2;
          cellWidthMeters =
            haversineDistance (minLon, centerLat) (minLon + lonStep, centerLat) * Fin 1000;
          cellHeightMeters =
            haversineDistance (minLon, minLat) (minLon, minLat + latStep) * Fin 1000;
          cellArea = cellWidthMeters * cellHeightMeters;
          lon = minLon + lonStep * Fin (real i + 1 / 2);
          lat = minLat + latStep * Fin (real j + 1 / 2)
      in if isPointInPolygon (lon, lat) (outerRing polygon) then
           (let demElevation = getElevationFromDem lon lat dem;
                st1 = st\<lparr>sampled := sampled st @ [(lon, lat)]\<rparr>
            in if demElevation \<noteq> JNull then
                 (let projX = fst bboxMinProj + projXStep * Fin (real i + 1 / 2);
                      projY = snd bboxMinProj + projYStep * Fin (real j + 1 / 2);
                      baseElevation = (case plane of
                                         Flat e \<Rightarrow> e
                                       | Tilted pa pb pc \<Rightarrow> pa * projX + pb * projY + pc);
                      delta = toNumber demElevation - baseElevation
                  in if delta > Fin 0
                     then st1\<lparr>fillVolume := fillVolume st1 + delta * cellArea\<rparr>
                     else st1\<lparr>cutVolume := cutVolume st1 + (- delta) * cellArea\<rparr>)
               else st1)
         else st)"

text \<open>The two nested loops (lines 279 to 306): \<open>i\<close> outside, \<open>j\<close> inside.\<close>

definition gridLoop ::
  "PolygonFeature \<Rightarrow> DemData \<Rightarrow> real \<Rightarrow> BasePlane \<Rightarrow> GridState \<Rightarrow> GridState" where
  "gridLoop polygon dem gridSize plane st =
     foldl (\<lambda>st i. foldl (\<lambda>st j. gridCell polygon dem gridSize plane st (i, j))
                      st (gridIndices gridSize))
       st (gridIndices gridSize)"

text \<open>
  \<^verbatim>\<open>getVolumeFromDem(polygon, dem, { method, fixedElevation, gridSize })\<close>. The first
  component lists, in order, the points at which the sampler has been called when the
  function returns; the second is the value returned, \<open>None\<close> for \<^verbatim>\<open>null\<close>. A missing
  \<^verbatim>\<open>gridSize\<close> is 50.
\<close>

definition volumeRun ::
  "PolygonFeature \<Rightarrow> DemData \<Rightarrow> VolumeCalcMethod \<Rightarrow> jsnum option \<Rightarrow> real option \<Rightarrow>
     coord list \<times> VolumeResult option" where
  "volumeRun polygon dem method fixedElevation gridSizeOpt =
     (let gridSize = (case gridSizeOpt of Some g \<Rightarrow> g | None \<Rightarrow> 50);
          polyCoordsWgs = outerRing polygon;
          pts = perimeterPoints polyCoordsWgs dem;
          perimeterSampled = polyCoordsWgs
      in if length pts < 3 then (perimeterSampled, None)
         else case fitBasePlane method fixedElevation pts of
           None \<Rightarrow> (perimeterSampled, None)
         | Some plane \<Rightarrow>
             let st = gridLoop polygon dem gridSize plane
                        \<lparr>cutVolume = Fin 0, fillVolume = Fin 0, sampled = perimeterSampled\<rparr>
             in (sampled st,
                 Some \<lparr>cut = cutVolume st, fill = fillVolume st,
                       net = fillVolume st - cutVolume st,
                       basePlane = plane, resultMethod = method\<rparr>))"

definition getVolumeFromDem ::
  "PolygonFeature \<Rightarrow> DemData \<Rightarrow> VolumeCalcMethod \<Rightarrow> jsnum option \<Rightarrow> real option \<Rightarrow>
     VolumeResult option" where
  "getVolumeFromDem polygon dem method fixedElevation gridSizeOpt =
     snd (volumeRun polygon dem method fixedElevation gridSizeOpt)"

definition demQueries ::
  "PolygonFeature \<Rightarrow> DemData \<Rightarrow> VolumeCalcMethod \<Rightarrow> jsnum option \<Rightarrow> real option \<Rightarrow> coord list" where
  "demQueries polygon dem method fixedElevation gridSizeOpt =
     fst (volumeRun polygon dem method fixedElevation gridSizeOpt)"


section \<open>Example data\<close>

text \<open>
  A flat raster of ten by ten cells, all at 50 m, over the unit square, already in
  geographic coordinates, and a square polygon inside it with its bounding box.
\<close>

definition flatDem :: DemData where
  "flatDem =
     \<lparr>rasterValues = replicate 100 (Fin 50), width = 10, height = 10,
      bbox = (Fin 0, Fin 0, Fin 1, Fin 1), wgs84Bbox = (Fin 0, Fin 0, Fin 1, Fin 1),
      noDataValue = JNum (Fin (- 9999)), projConverter = None\<rparr>"

definition squarePolygon :: PolygonFeature where
  "squarePolygon =
     \<lparr>outerRing = [(Fin (1 / 5), Fin (1 / 5)), (Fin (4 / 5), Fin (1 / 5)),
                   (Fin (4 / 5), Fin (4 / 5)), (Fin (1 / 5), Fin (4 / 5)),
                   (Fin (1 / 5), Fin (1 / 5))],
      featureBbox = Some (Fin (1 / 5), Fin (1 / 5), Fin (4 / 5), Fin (4 / 5))\<rparr>"

text \<open>A triangle that lies east of the raster.\<close>

definition outsidePolygon :: PolygonFeature where
  "outsidePolygon =
     \<lparr>outerRing = [(Fin 2, Fin 2), (Fin 3, Fin 2), (Fin 3, Fin 3), (Fin 2, Fin 2)],
      featureBbox = Some (Fin 2, Fin 2, Fin 3, Fin 3)\<rparr>"

text \<open>A raster of two by two cells whose north-east cell holds the no-data value.\<close>

definition holeDem :: DemData where
  "holeDem =
     \<lparr>rasterValues = [Fin 10, Fin (- 9999), Fin 30, Fin 40], width = 2, height = 2,
      bbox = (Fin 0, Fin 0, Fin 2, Fin 2), wgs84Bbox = (Fin 0, Fin 0, Fin 2, Fin 2),
      noDataValue = JNum (Fin (- 9999)), projConverter = None\<rparr>"

text \<open>
  For finite coordinates, the \<open>a\<close> of \<^verbatim>\<open>haversineDistance\<close> (lines 20 to 25) as a real
  number: the haversine of the central angle.
\<close>

definition havA :: "real \<Rightarrow> real \<Rightarrow> real \<Rightarrow> real \<Rightarrow> real" where
  "havA x1 y1 x2 y2 =
     sin ((y2 - y1) * pi / 180 / 2) * sin ((y2 - y1) * pi / 180 / 2) +
     sin ((x2 - x1) * pi / 180 / 2) * sin ((x2 - x1) * pi / 180 / 2) *
       cos (y1 * pi / 180) * cos (y2 * pi / 180)"

section \<open>The samples of a profile\<close>

text \<open>
  The profile as the specification describes it: the start vertex at distance 0, then on
  every segment the points at the fractions \<open>j / n\<close> for \<open>j = 1, ..., n\<close>, each with its
  distance along the path in metres; of these candidates, in path order, the ones whose
  elevation the sampler resolves.
\<close>

definition samplePoint :: "coord \<Rightarrow> coord \<Rightarrow> jsnum \<Rightarrow> jsnum \<Rightarrow> jsnum \<Rightarrow> nat \<Rightarrow> coord \<times> jsnum" where
  "samplePoint startPoint endPoint segmentDist accumulatedDist n j =
     (let t = Fin (real j) / n
      in ((fst startPoint + (fst endPoint - fst startPoint) * t,
           snd startPoint + (snd endPoint - snd startPoint) * t),
          (accumulatedDist + segmentDist * t) * Fin 1000))"

definition distanceBefore :: "coord list \<Rightarrow> nat \<Rightarrow> jsnum" where
  "distanceBefore coords i =
     foldl (\<lambda>acc k. acc + haversineDistance (coords ! k) (coords ! (k + 1))) (Fin 0) [0..<i]"

definition segmentCandidates :: "coord list \<Rightarrow> real \<Rightarrow> nat \<Rightarrow> (coord \<times> jsnum) list" where
  "segmentCandidates coords samples i =
     (let startPoint = coords ! i;
          endPoint = coords ! (i + 1);
          segmentDist = haversineDistance startPoint endPoint;
          n = numSegmentSamples samples segmentDist (calculateLineDistance coords)
      in map (samplePoint startPoint endPoint segmentDist (distanceBefore coords i) n)
           (sampleIndices n))"

definition profileCandidates :: "coord list \<Rightarrow> real \<Rightarrow> (coord \<times> jsnum) list" where
  "profileCandidates coords samples =
     (hd coords, Fin 0) # concat (map (segmentCandidates coords samples) [0..<length coords - 1])"

definition resolves :: "DemData \<Rightarrow> coord \<times> jsnum \<Rightarrow> bool" where
  "resolves dem cd = (getElevationFromDem (fst (fst cd)) (snd (fst cd)) dem \<noteq> JNull)"

definition toSample :: "DemData \<Rightarrow> coord \<times> jsnum \<Rightarrow> ProfileSample" where
  "toSample dem cd =
     \<lparr>distance = snd cd, elevation = getElevationFromDem (fst (fst cd)) (snd (fst cd)) dem\<rparr>"

definition validSamples :: "coord list \<Rightarrow> DemData \<Rightarrow> real \<Rightarrow> ProfileSample list" where
  "validSamples coords dem samples =
     map (toSample dem) (filter (resolves dem) (profileCandidates coords samples))"

text \<open>A number that is finite or NaN: not an infinity.\<close>

definition finiteOrNaN :: "jsnum \<Rightarrow> bool" where
  "finiteOrNaN x = (x \<noteq> PosInf \<and> x \<noteq> NegInf)"

text \<open>A line of length zero and a line along a meridian, both inside the flat raster.\<close>

definition pointLine :: "coord list" where
  "pointLine = [(Fin (1 / 2), Fin (1 / 2)), (Fin (1 / 2), Fin (1 / 2))]"

definition meridianLine :: "coord list" where
  "meridianLine = [(Fin (1 / 2), Fin (1 / 5)), (Fin (1 / 2), Fin (3 / 5))]"

section \<open>Finite coordinates\<close>

text \<open>
  A coordinate of two finite numbers. For lines of finite coordinates: the length of a
  segment in km as a real number, the length of the path before vertex \<open>k\<close>, and the
  number of samples on segment \<open>i\<close>.
\<close>

definition finCoord :: "real \<times> real \<Rightarrow> coord" where
  "finCoord p = (Fin (fst p), Fin (snd p))"

definition havKm :: "real \<times> real \<Rightarrow> real \<times> real \<Rightarrow> real" where
  "havKm p q =
     6371 * (2 * atan2 (sqrt (havA (fst p) (snd p) (fst q) (snd q)))
                       (sqrt (1 - havA (fst p) (snd p) (fst q) (snd q))))"

definition accKm :: "(real \<times> real) list \<Rightarrow> nat \<Rightarrow> real" where
  "accKm rs k = (\<Sum>i<k. havKm (rs ! i) (rs ! Suc i))"

definition segN :: "(real \<times> real) list \<Rightarrow> real \<Rightarrow> nat \<Rightarrow> int" where
  "segN rs samples i =
     max 2 \<lceil>samples * (havKm (rs ! i) (rs ! Suc i) / accKm rs (length rs - 1))\<rceil>"

text \<open>
  For a ring of finite coordinates: the term that \<^verbatim>\<open>calculatePolygonArea\<close> adds at index
  \<open>i\<close> (line 65), and the sum of the terms.
\<close>

definition ringTerm :: "(real \<times> real) list \<Rightarrow> nat \<Rightarrow> real" where
  "ringTerm rs i =
     (fst (rs ! ((i + 1) mod length rs)) * pi / 180 - fst (rs ! i) * pi / 180) *
     (2 + sin (snd (rs ! i) * pi / 180) + sin (snd (rs ! ((i + 1) mod length rs)) * pi / 180))"

definition ringSum :: "(real \<times> real) list \<Rightarrow> real" where
  "ringSum rs = (\<Sum>i<length rs. ringTerm rs i)"

text \<open>The distance of a candidate is a finite number between two bounds (in metres).\<close>

definition distIn :: "real \<Rightarrow> real \<Rightarrow> coord \<times> jsnum \<Rightarrow> bool" where
  "distIn lo hi cd = (case snd cd of Fin d \<Rightarrow> lo \<le> d \<and> d \<le> hi | _ \<Rightarrow> False)"

text \<open>The order of two candidates by distance (\<^verbatim>\<open><=\<close> on numbers).\<close>

definition distLe :: "coord \<times> jsnum \<Rightarrow> coord \<times> jsnum \<Rightarrow> bool" where
  "distLe a b = (snd a \<le> snd b)"

text \<open>A line along a meridian that leaves the flat raster to the north.\<close>

definition exitLine :: "coord list" where
  "exitLine = [(Fin (1 / 2), Fin (1 / 5)), (Fin (1 / 2), Fin (7 / 5))]"

section \<open>Finite inputs of the volume engine\<close>










text \<open>The square polygon without its bounding box.\<close>

definition squareRingOnly :: PolygonFeature where
  "squareRingOnly = squarePolygon\<lparr>featureBbox := None\<rparr>"

text \<open>
  The bounds of a ring, accumulated as \<^verbatim>\<open>calculateBbox\<close> (\<^verbatim>\<open>src/lib/geo-utils.ts\<close>)
  accumulates them over the coordinates of a feature: minima and maxima, from the seeds
  \<^verbatim>\<open>Infinity\<close> and \<^verbatim>\<open>-Infinity\<close>.
\<close>

definition ringBbox :: "coord list \<Rightarrow> BBox" where
  "ringBbox coords =
     foldl (\<lambda>(minX, minY, maxX, maxY) c.
              (Math_min minX (fst c), Math_min minY (snd c),
               Math_max maxX (fst c), Math_max maxY (snd c)))
       (PosInf, PosInf, NegInf, NegInf) coords"

text \<open>
  The raster of two by two cells with NaN as its no-data value and in its north-east cell,
  and the flat raster with NaN in every cell (its no-data value is -9999).
\<close>

definition nanHoleDem :: DemData where
  "nanHoleDem = holeDem\<lparr>rasterValues := [Fin 10, NaN, Fin 30, Fin 40], noDataValue := JNum NaN\<rparr>"


section \<open>Binary64 arithmetic\<close>

text \<open>
  The finite numbers of JavaScript are the binary64 numbers of IEEE 754: zero, the normal
  numbers \<open>\<plusminus> m * 2\<^sup>e\<^sup>-\<^sup>5\<^sup>2\<close> with \<open>2\<^sup>5\<^sup>2 \<le> m < 2\<^sup>5\<^sup>3\<close> and \<open>-1022 \<le> e \<le> 1023\<close>, and the
  subnormal numbers, the multiples of \<open>2\<^sup>-\<^sup>1\<^sup>0\<^sup>7\<^sup>4\<close> below \<open>2\<^sup>-\<^sup>1\<^sup>0\<^sup>2\<^sup>2\<close>. An operation
  returns the binary64 number nearest to its exact result, and of two equally near ones
  the one with the even \<open>m\<close>; a result that rounds to \<open>2\<^sup>1\<^sup>0\<^sup>2\<^sup>4\<close> or more in magnitude
  overflows to an infinity.

  \<open>expo x\<close> is the exponent \<open>e\<close> of \<open>x\<close>, \<open>roundEven\<close> rounds to the nearest integer, and
  \<open>binary64 x\<close> is \<open>x\<close> rounded to a multiple of \<open>2\<^sup>e\<^sup>-\<^sup>5\<^sup>2\<close>. The sign of zero is not modelled.
\<close>

definition expo :: "real \<Rightarrow> int" where
  "expo x = max \<lfloor>log 2 \<bar>x\<bar>\<rfloor> (- 1022)"

definition roundEven :: "real \<Rightarrow> int" where
  "roundEven x =
     (let f = \<lfloor>x\<rfloor>
      in if x - of_int f < 1 / 2 then f
         else if 1 / 2 < x - of_int f then f + 1
         else if even f then f else f + 1)"

definition binary64 :: "real \<Rightarrow> real" where
  "binary64 x =
     (if x = 0 then 0
      else of_int (roundEven (x * 2 powi (52 - expo x))) * 2 powi (expo x - 52))"


text \<open>The rounding of a number: of a finite one with overflow, of a special value itself.\<close>

definition overflow :: "real \<Rightarrow> jsnum" where
  "overflow y = (if 2 ^ 1024 \<le> \<bar>y\<bar> then (if 0 < y then PosInf else NegInf) else Fin y)"

fun rnd :: "jsnum \<Rightarrow> jsnum" where
  "rnd (Fin x) = overflow (binary64 x)"
| "rnd x = x"

text \<open>
  A \<open>float64\<close> is a number under binary64 arithmetic: \<open>+\<close>, \<open>-\<close>, \<open>*\<close> and \<open>/\<close> round their
  results; negation, the absolute value and the comparisons are exact.
\<close>

datatype float64 = F64 (val64: jsnum)

instantiation float64 :: "{plus, minus, uminus, times, inverse, abs, ord}"
begin

definition plus_float64 :: "float64 \<Rightarrow> float64 \<Rightarrow> float64" where
  "plus_float64 x y = F64 (rnd (val64 x + val64 y))"

definition uminus_float64 :: "float64 \<Rightarrow> float64" where
  "uminus_float64 x = F64 (- val64 x)"

definition minus_float64 :: "float64 \<Rightarrow> float64 \<Rightarrow> float64" where
  "minus_float64 x y = F64 (rnd (val64 x - val64 y))"

definition times_float64 :: "float64 \<Rightarrow> float64 \<Rightarrow> float64" where
  "times_float64 x y = F64 (rnd (val64 x * val64 y))"

definition divide_float64 :: "float64 \<Rightarrow> float64 \<Rightarrow> float64" where
  "divide_float64 x y = F64 (rnd (val64 x / val64 y))"

definition inverse_float64 :: "float64 \<Rightarrow> float64" where
  "inverse_float64 x = F64 (rnd (Fin 1 / val64 x))"

definition abs_float64 :: "float64 \<Rightarrow> float64" where
  "abs_float64 x = F64 \<bar>val64 x\<bar>"

definition less_float64 :: "float64 \<Rightarrow> float64 \<Rightarrow> bool" where
  "less_float64 x y = (val64 x < val64 y)"

definition less_eq_float64 :: "float64 \<Rightarrow> float64 \<Rightarrow> bool" where
  "less_eq_float64 x y = (val64 x \<le> val64 y)"

instance ..

end

text \<open>The finite number with the value \<open>r\<close>.\<close>

abbreviation dbl :: "real \<Rightarrow> float64" where
  "dbl r \<equiv> F64 (Fin r)"

text \<open>
  \<^verbatim>\<open>Math.PI\<close> is the binary64 number nearest to \<open>\<pi>\<close>, 3.141592653589793. \<^verbatim>\<open>Math.sqrt\<close> is
  correctly rounded (IEEE 754). The precision of \<^verbatim>\<open>Math.sin\<close>, \<^verbatim>\<open>Math.cos\<close> and
  \<^verbatim>\<open>Math.atan2\<close> is left to the implementation by ECMAScript; they are modelled as
  correctly rounded as well: the exact function, then the rounding.
\<close>

definition Math_PI64 :: float64 where
  "Math_PI64 = dbl (884279719003555 / 2 ^ 48)"

definition Math_sin64 :: "float64 \<Rightarrow> float64" where
  "Math_sin64 x = F64 (rnd (Math_sin (val64 x)))"

definition Math_cos64 :: "float64 \<Rightarrow> float64" where
  "Math_cos64 x = F64 (rnd (Math_cos (val64 x)))"

definition Math_sqrt64 :: "float64 \<Rightarrow> float64" where
  "Math_sqrt64 x = F64 (rnd (Math_sqrt (val64 x)))"

definition Math_atan2_64 :: "float64 \<Rightarrow> float64 \<Rightarrow> float64" where
  "Math_atan2_64 y x = F64 (rnd (Math_atan2 (val64 y) (val64 x)))"

section \<open>GeodesicMath in binary64 arithmetic\<close>

text \<open>
  \<^verbatim>\<open>haversineDistance\<close> (lines 13 to 28) and \<^verbatim>\<open>calculatePolygonArea\<close> (lines 50 to 69)
  with the arithmetic of the code: the same expressions as above, on \<open>float64\<close>.
\<close>

type_synonym coord64 = "float64 \<times> float64"

definition haversineDistance64 :: "coord64 \<Rightarrow> coord64 \<Rightarrow> float64" where
  "haversineDistance64 coords1 coords2 =
     (let R = dbl 6371;
          dLat = ((snd coords2 - snd coords1) * Math_PI64) / dbl 180;
          dLon = ((fst coords2 - fst coords1) * Math_PI64) / dbl 180;
          lat1 = (snd coords1 * Math_PI64) / dbl 180;
          lat2 = (snd coords2 * Math_PI64) / dbl 180;
          a = Math_sin64 (dLat / dbl 2) * Math_sin64 (dLat / dbl 2) +
              Math_sin64 (dLon / dbl 2) * Math_sin64 (dLon / dbl 2) * Math_cos64 lat1 * Math_cos64 lat2;
          c = dbl 2 * Math_atan2_64 (Math_sqrt64 a) (Math_sqrt64 (dbl 1 - a))
      in R * c)"

definition calculatePolygonArea64 :: "coord64 list \<Rightarrow> float64" where
  "calculatePolygonArea64 coordinates =
     (if length coordinates < 3 then dbl 0
      else
        let R2 = dbl 6371000 * dbl 6371000;
            area = foldl (\<lambda>area i.
                     let p1 = coordinates ! i;
                         p2 = coordinates ! ((i + 1) mod length coordinates);
                         p1_rad = (fst p1 * Math_PI64 / dbl 180, snd p1 * Math_PI64 / dbl 180);
                         p2_rad = (fst p2 * Math_PI64 / dbl 180, snd p2 * Math_PI64 / dbl 180)
                     in area + (fst p2_rad - fst p1_rad) *
                               (dbl 2 + Math_sin64 (snd p1_rad) + Math_sin64 (snd p2_rad)))
                   (dbl 0) [0..<length coordinates]
        in \<bar>area * R2 / dbl 2\<bar>)"

text \<open>A coordinate of two finite numbers.\<close>

definition coord64 :: "real \<times> real \<Rightarrow> coord64" where
  "coord64 p = (dbl (fst p), dbl (snd p))"

section \<open>Arithmetic on finite numbers\<close>

lemma Fin_plus [simp]: "Fin a + Fin b = Fin (a + b)"
  by (simp add: plus_jsnum_def)

lemma Fin_minus [simp]: "Fin a - Fin b = Fin (a - b)"
  by (simp add: minus_jsnum_def)

lemma Fin_uminus [simp]: "- Fin a = Fin (- a)"
  by (simp add: uminus_jsnum_def)

lemma Fin_times [simp]: "Fin a * Fin b = Fin (a * b)"
  by (simp add: times_jsnum_def)

lemma Fin_divide [simp]: "b \<noteq> 0 \<Longrightarrow> Fin a / Fin b = Fin (a / b)"
  by (simp add: divide_jsnum_def)

lemma Fin_divide_zero:
  "Fin a / Fin 0 = (if a = 0 then NaN else if a > 0 then PosInf else NegInf)"
  by (simp add: divide_jsnum_def)

lemma Fin_less [simp]: "Fin a < Fin b \<longleftrightarrow> a < b"
  by (simp add: less_jsnum_def)

lemma Fin_le [simp]: "Fin a \<le> Fin b \<longleftrightarrow> a \<le> b"
  by (simp add: less_eq_jsnum_def)

lemma Fin_abs [simp]: "\<bar>Fin a\<bar> = Fin \<bar>a\<bar>"
  by (simp add: abs_jsnum_def)

lemmas sampler_defs =
  getElevationFromDem_def demCell_def applyProj_def cellIndices_def cellFraction_def
  Let_def numEq_def

lemma flatDem_vertex:
  "getElevationFromDem (Fin (1 / 5)) (Fin (1 / 5)) flatDem = JNum (Fin 50)"
  "getElevationFromDem (Fin (4 / 5)) (Fin (1 / 5)) flatDem = JNum (Fin 50)"
  "getElevationFromDem (Fin (4 / 5)) (Fin (4 / 5)) flatDem = JNum (Fin 50)"
  "getElevationFromDem (Fin (1 / 5)) (Fin (4 / 5)) flatDem = JNum (Fin 50)"
  by (simp_all add: sampler_defs flatDem_def)

lemma flatDem_outside:
  "getElevationFromDem (Fin 2) y flatDem = JNull"
  "getElevationFromDem (Fin 3) y flatDem = JNull"
  by (simp_all add: sampler_defs flatDem_def)

section \<open>VolumeEngine: the failures\<close>

text \<open>
  C4. Whatever the polygon, the raster and the method: when fewer than three vertices of
  the outer ring have an elevation the sampler resolves (a result other than \<^verbatim>\<open>null\<close>),
  \<^verbatim>\<open>getVolumeFromDem\<close> returns \<^verbatim>\<open>null\<close>.
\<close>

theorem volume_needs_three_perimeter_samples:
  assumes "length (filter (\<lambda>c. getElevationFromDem (fst c) (snd c) dem \<noteq> JNull)
                     (outerRing polygon)) < 3"
  shows "getVolumeFromDem polygon dem method fixedElevation gridSize = None"
  using assms
  by (simp add: getVolumeFromDem_def volumeRun_def perimeterPoints_def Let_def
        filter_map comp_def)

theorem volume_needs_three_perimeter_samples_witness:
  "length (filter (\<lambda>c. getElevationFromDem (fst c) (snd c) flatDem \<noteq> JNull)
             (outerRing outsidePolygon)) < 3 \<and>
   getVolumeFromDem outsidePolygon flatDem LowestPoint None None = None"
proof -
  have h: "length (filter (\<lambda>c. getElevationFromDem (fst c) (snd c) flatDem \<noteq> JNull)
                     (outerRing outsidePolygon)) < 3"
    by (simp add: outsidePolygon_def flatDem_outside)
  from volume_needs_three_perimeter_samples [OF h] h show ?thesis
    by blast
qed

text \<open>
  C1, as the code has it. With the method \<^verbatim>\<open>fixedElevation\<close> and no elevation supplied,
  \<^verbatim>\<open>getVolumeFromDem\<close> returns \<^verbatim>\<open>null\<close>, and when it returns the sampler has been
  called at every vertex of the outer ring, once each and in order, and at no other
  point: the perimeter is sampled before the method is looked at, the grid never.
\<close>

theorem fixedElevation_missing_returns_null_after_perimeter:
  "getVolumeFromDem polygon dem FixedElevation None gridSize = None \<and>
   demQueries polygon dem FixedElevation None gridSize = outerRing polygon"
  by (simp add: getVolumeFromDem_def demQueries_def volumeRun_def fitBasePlane_def Let_def)

text \<open>
  C1 as stated fails: on the square inside the flat raster the call returns \<^verbatim>\<open>null\<close>,
  but the sampler has been called at the five vertices, and it has read the raster there
  (the first vertex resolves to 50 m).
\<close>

theorem fixedElevation_missing_samples_the_dem:
  "getVolumeFromDem squarePolygon flatDem FixedElevation None None = None \<and>
   demQueries squarePolygon flatDem FixedElevation None None \<noteq> [] \<and>
   length (demQueries squarePolygon flatDem FixedElevation None None) = 5 \<and>
   getElevationFromDem (Fin (1 / 5)) (Fin (1 / 5)) flatDem = JNum (Fin 50)"
  by (simp add: getVolumeFromDem_def demQueries_def volumeRun_def fitBasePlane_def Let_def
        squarePolygon_def flatDem_vertex)


section \<open>DemSampler: no-data and the edges of the extent\<close>

text \<open>
  C6, as the code has it. In a raster whose no-data value \<open>nd\<close> is a number other than
  NaN, a query that resolves to a cell whose stored value is equal (\<^verbatim>\<open>===\<close>) to \<open>nd\<close>
  returns \<^verbatim>\<open>null\<close>, and so does not return \<open>nd\<close> as an elevation. (\<open>numEq v nd\<close> holds
  for no \<open>v\<close> when \<open>nd\<close> is NaN.)
\<close>

theorem nodata_cell_is_null:
  assumes "demCell lon lat dem = Some index"
    and "noDataValue dem = JNum nd"
    and "typedArrayGet (rasterValues dem) index = JNum v"
    and "numEq v nd"
  shows "getElevationFromDem lon lat dem = JNull \<and>
         getElevationFromDem lon lat dem \<noteq> JNum nd"
  using assms by (simp add: getElevationFromDem_def)

lemma holeDem_cell: "demCell (Fin (3 / 2)) (Fin (3 / 2)) holeDem = Some (Fin 1)"
  by (simp add: demCell_def applyProj_def cellIndices_def cellFraction_def holeDem_def)

theorem nodata_cell_is_null_witness:
  "demCell (Fin (3 / 2)) (Fin (3 / 2)) holeDem = Some (Fin 1) \<and>
   noDataValue holeDem = JNum (Fin (- 9999)) \<and>
   typedArrayGet (rasterValues holeDem) (Fin 1) = JNum (Fin (- 9999)) \<and>
   numEq (Fin (- 9999)) (Fin (- 9999)) \<and>
   getElevationFromDem (Fin (3 / 2)) (Fin (3 / 2)) holeDem = JNull"
proof -
  have a: "noDataValue holeDem = JNum (Fin (- 9999))"
    by (simp add: holeDem_def)
  have b: "typedArrayGet (rasterValues holeDem) (Fin 1) = JNum (Fin (- 9999))"
    by (simp add: holeDem_def)
  have c: "numEq (Fin (- 9999)) (Fin (- 9999))"
    by (simp add: numEq_def)
  from nodata_cell_is_null [OF holeDem_cell a b c] holeDem_cell a b c show ?thesis
    by simp
qed

text \<open>
  C6 as stated fails for a raster whose no-data value is NaN: the comparison of line 130
  is false for NaN, so the cell that holds the no-data value is not recognised, and the
  query returns NaN, the no-data value itself, as the elevation.
\<close>

theorem nan_sentinel_is_returned:
  "noDataValue nanHoleDem = JNum NaN \<and>
   demCell (Fin (3 / 2)) (Fin (3 / 2)) nanHoleDem = Some (Fin 1) \<and>
   typedArrayGet (rasterValues nanHoleDem) (Fin 1) = JNum NaN \<and>
   getElevationFromDem (Fin (3 / 2)) (Fin (3 / 2)) nanHoleDem = JNum NaN"
  by (simp add: getElevationFromDem_def demCell_def applyProj_def cellIndices_def
        cellFraction_def holeDem_def nanHoleDem_def numEq_def)

text \<open>
  C10. Let the extent of the raster be finite and not degenerate along the axis in
  question. A query whose projected X is \<open>maxX\<close> (with \<open>minX < maxX\<close>), or whose projected
  Y is \<open>minY\<close> (with \<open>minY < maxY\<close>), returns \<^verbatim>\<open>null\<close>: the fraction is exactly 1, the
  column is \<open>width\<close> (the row is \<open>height\<close>), and the range test rejects it. This holds
  whether or not the query passes the two bounding box tests.
\<close>

theorem east_south_edges_excluded:
  assumes "bbox dem = (Fin minX, Fin minY, Fin maxX, Fin maxY)"
    and "applyProj dem (lon, lat) = (projX, projY)"
    and "(projX = Fin maxX \<and> minX < maxX) \<or> (projY = Fin minY \<and> minY < maxY)"
  shows "getElevationFromDem lon lat dem = JNull \<and>
         (projX = Fin maxX \<and> minX < maxX \<longrightarrow>
            fst (cellFraction (bbox dem) (projX, projY)) = Fin 1 \<and>
            fst (cellIndices dem (projX, projY)) = Fin (real (width dem))) \<and>
         (projY = Fin minY \<and> minY < maxY \<longrightarrow>
            snd (cellFraction (bbox dem) (projX, projY)) = Fin 1 \<and>
            snd (cellIndices dem (projX, projY)) = Fin (real (height dem)))"
proof -
  have x: "fst (cellFraction (bbox dem) (projX, projY)) = Fin 1 \<and>
           fst (cellIndices dem (projX, projY)) = Fin (real (width dem))"
    if "projX = Fin maxX" "minX < maxX"
    using that assms(1) by (simp add: cellFraction_def cellIndices_def)
  have y: "snd (cellFraction (bbox dem) (projX, projY)) = Fin 1 \<and>
           snd (cellIndices dem (projX, projY)) = Fin (real (height dem))"
    if "projY = Fin minY" "minY < maxY"
    using that assms(1) by (simp add: cellFraction_def cellIndices_def)
  have "demCell lon lat dem = None"
    using assms(3)
  proof
    assume "projX = Fin maxX \<and> minX < maxX"
    then have "fst (cellIndices dem (projX, projY)) = Fin (real (width dem))"
      using x by simp
    then show ?thesis
      by (simp add: demCell_def assms(1,2) Let_def split: prod.splits)
  next
    assume "projY = Fin minY \<and> minY < maxY"
    then have "snd (cellIndices dem (projX, projY)) = Fin (real (height dem))"
      using y by simp
    then show ?thesis
      by (simp add: demCell_def assms(1,2) Let_def split: prod.splits)
  qed
  then have "getElevationFromDem lon lat dem = JNull"
    by (simp add: getElevationFromDem_def)
  with x y show ?thesis by blast
qed

theorem east_south_edges_excluded_witness:
  "bbox flatDem = (Fin 0, Fin 0, Fin 1, Fin 1) \<and>
   applyProj flatDem (Fin 1, Fin (1 / 2)) = (Fin 1, Fin (1 / 2)) \<and>
   (0 :: real) < 1 \<and>
   cellIndices flatDem (Fin 1, Fin (1 / 2)) = (Fin 10, Fin 5) \<and>
   getElevationFromDem (Fin 1) (Fin (1 / 2)) flatDem = JNull"
proof -
  have a: "bbox flatDem = (Fin 0, Fin 0, Fin 1, Fin 1)"
    by (simp add: flatDem_def)
  have b: "applyProj flatDem (Fin 1, Fin (1 / 2)) = (Fin 1, Fin (1 / 2))"
    by (simp add: applyProj_def flatDem_def)
  have c: "(Fin 1 = Fin 1 \<and> (0 :: real) < 1) \<or> (Fin (1 / 2) = Fin 0 \<and> (0 :: real) < 1)"
    by simp
  have d: "cellIndices flatDem (Fin 1, Fin (1 / 2)) = (Fin 10, Fin 5)"
    by (simp add: cellIndices_def cellFraction_def flatDem_def)
  from east_south_edges_excluded [OF a b c] a b d show ?thesis
    by simp
qed

section \<open>GeodesicMath: the distance\<close>

lemma sin_half_sq: "sin (t / 2) * sin (t / 2) = (1 - cos t) / 2" for t :: real
proof -
  have "cos t = 1 - 2 * (sin (t / 2))\<^sup>2"
    using cos_double_sin [of "t / 2"] by simp
  then show ?thesis by (simp add: power2_eq_square)
qed

text \<open>\<open>havA\<close> is half of one minus the scalar product of the two unit vectors.\<close>

lemma havA_dot:
  "havA x1 y1 x2 y2 =
     (1 - (cos (y1 * pi / 180) * cos (y2 * pi / 180) * cos ((x2 - x1) * pi / 180) +
           sin (y1 * pi / 180) * sin (y2 * pi / 180))) / 2"
proof -
  define c1 where "c1 = cos (y1 * pi / 180)"
  define c2 where "c2 = cos (y2 * pi / 180)"
  define s1 where "s1 = sin (y1 * pi / 180)"
  define s2 where "s2 = sin (y2 * pi / 180)"
  define k where "k = cos ((x2 - x1) * pi / 180)"
  have d: "(y2 - y1) * pi / 180 = y2 * pi / 180 - y1 * pi / 180"
    by (simp add: algebra_simps diff_divide_distrib)
  have "cos ((y2 - y1) * pi / 180) = c2 * c1 + s2 * s1"
    unfolding d cos_diff c1_def c2_def s1_def s2_def by simp
  then have "havA x1 y1 x2 y2 = (1 - (c2 * c1 + s2 * s1)) / 2 + (1 - k) / 2 * c1 * c2"
    unfolding havA_def sin_half_sq c1_def c2_def k_def by simp
  also have "\<dots> = (1 - (c1 * c2 * k + s1 * s2)) / 2"
    by (simp add: field_simps)
  finally show ?thesis
    unfolding c1_def c2_def s1_def s2_def k_def .
qed

lemma dot_bound:
  fixes c1 c2 s1 s2 k :: real
  assumes "c1\<^sup>2 + s1\<^sup>2 = 1" "c2\<^sup>2 + s2\<^sup>2 = 1" "\<bar>k\<bar> \<le> 1"
  shows "\<bar>c1 * c2 * k + s1 * s2\<bar> \<le> 1"
proof -
  have cs: "(c1 * k * c2 + s1 * s2)\<^sup>2 + (c1 * k * s2 - s1 * c2)\<^sup>2 =
            ((c1 * k)\<^sup>2 + s1\<^sup>2) * (c2\<^sup>2 + s2\<^sup>2)"
    by (simp add: power2_eq_square algebra_simps)
  have k2: "k\<^sup>2 \<le> 1"
    using assms(3) by (simp add: abs_square_le_1)
  have "(c1 * k)\<^sup>2 \<le> c1\<^sup>2"
    using mult_left_mono [OF k2, of "c1\<^sup>2"] by (simp add: power_mult_distrib)
  then have "((c1 * k)\<^sup>2 + s1\<^sup>2) * (c2\<^sup>2 + s2\<^sup>2) \<le> 1"
    using assms(1,2) by simp
  then have "(c1 * k * c2 + s1 * s2)\<^sup>2 \<le> 1"
    using cs zero_le_power2 [of "c1 * k * s2 - s1 * c2"] by linarith
  then have "\<bar>c1 * k * c2 + s1 * s2\<bar> \<le> 1"
    by (simp add: abs_square_le_1)
  then show ?thesis by (simp add: mult.commute mult.left_commute)
qed

lemma havA_range: "0 \<le> havA x1 y1 x2 y2 \<and> havA x1 y1 x2 y2 \<le> 1"
proof -
  have "\<bar>cos (y1 * pi / 180) * cos (y2 * pi / 180) * cos ((x2 - x1) * pi / 180) +
          sin (y1 * pi / 180) * sin (y2 * pi / 180)\<bar> \<le> 1"
    by (rule dot_bound) simp_all
  then show ?thesis
    unfolding havA_dot by (simp add: abs_le_iff)
qed

lemma havA_sym: "havA x1 y1 x2 y2 = havA x2 y2 x1 y1"
proof -
  have e: "(x2 - x1) * pi / 180 = - ((x1 - x2) * pi / 180)"
    by (simp add: field_simps)
  have "cos ((x2 - x1) * pi / 180) = cos ((x1 - x2) * pi / 180)"
    unfolding e by (rule cos_minus)
  then show ?thesis
    unfolding havA_dot by (simp add: mult.commute)
qed

text \<open>On finite coordinates the distance is a finite number: no square root of a negative.\<close>

lemma haversine_Fin:
  "haversineDistance (Fin x1, Fin y1) (Fin x2, Fin y2) =
     Fin (6371 * (2 * atan2 (sqrt (havA x1 y1 x2 y2)) (sqrt (1 - havA x1 y1 x2 y2))))"
  using havA_range [of x1 y1 x2 y2]
  by (simp add: haversineDistance_def Let_def havA_def)

text \<open>
  In exact arithmetic the distance is symmetric, and the distance of a point from itself
  is 0. Under binary64 arithmetic only the second holds (section
  \<^emph>\<open>GeodesicMath in binary64: the distance\<close>).
\<close>

lemma haversine_exact_symmetric:
  "numEq (haversineDistance (Fin ax, Fin ay) (Fin bx, Fin by'))
         (haversineDistance (Fin bx, Fin by') (Fin ax, Fin ay)) \<and>
   numEq (haversineDistance (Fin ax, Fin ay) (Fin ax, Fin ay)) (Fin 0)"
proof -
  have "havA ax ay ax ay = 0"
    by (simp add: havA_def)
  then have "haversineDistance (Fin ax, Fin ay) (Fin ax, Fin ay) = Fin 0"
    by (simp add: haversine_Fin atan2_def)
  moreover have "haversineDistance (Fin ax, Fin ay) (Fin bx, Fin by') =
                 haversineDistance (Fin bx, Fin by') (Fin ax, Fin ay)"
    unfolding haversine_Fin havA_sym [of ax ay bx by'] ..
  ultimately show ?thesis
    by (simp add: numEq_def haversine_Fin)
qed


section \<open>ProfileExtractor: the profile is the list of valid samples\<close>

lemma segment_fold:
  "foldl (\<lambda>profile j.
            let t = Fin (real j) / n;
                lon = fst s + (fst e - fst s) * t;
                lat = snd s + (snd e - snd s) * t;
                sampleDist = acc + sd * t;
                elev = getElevationFromDem lon lat dem
            in if elev \<noteq> JNull
               then profile @ [\<lparr>distance = sampleDist * Fin 1000, elevation = elev\<rparr>]
               else profile) profile js =
   profile @ map (toSample dem) (filter (resolves dem) (map (samplePoint s e sd acc n) js))"
  by (induction js arbitrary: profile)
     (simp_all add: Let_def samplePoint_def resolves_def toSample_def)

lemma sampleSegment_eq:
  "sampleSegment dem s e sd acc n profile =
   profile @ map (toSample dem) (filter (resolves dem)
      (map (samplePoint s e sd acc n) (sampleIndices n)))"
  unfolding sampleSegment_def by (rule segment_fold)

lemma distanceBefore_Suc:
  "distanceBefore coords (Suc k) =
   distanceBefore coords k + haversineDistance (coords ! k) (coords ! (k + 1))"
  by (simp add: distanceBefore_def)

lemma segments_fold:
  "foldl (\<lambda>(profile, accumulatedDist) i.
              let startPoint = coords ! i;
                  endPoint = coords ! (i + 1);
                  segmentDist = haversineDistance startPoint endPoint;
                  n = numSegmentSamples samples segmentDist (calculateLineDistance coords)
              in (sampleSegment dem startPoint endPoint segmentDist accumulatedDist n profile,
                  accumulatedDist + segmentDist))
       (p0, Fin 0) [0..<k] =
   (p0 @ map (toSample dem) (filter (resolves dem)
            (concat (map (segmentCandidates coords samples) [0..<k]))),
    distanceBefore coords k)"
proof -
  define step where "step =
    (\<lambda>(profile, accumulatedDist) i.
              let startPoint = coords ! i;
                  endPoint = coords ! (i + 1);
                  segmentDist = haversineDistance startPoint endPoint;
                  n = numSegmentSamples samples segmentDist (calculateLineDistance coords)
              in (sampleSegment dem startPoint endPoint segmentDist accumulatedDist n profile,
                  accumulatedDist + segmentDist))"
  define rhs where "rhs = (\<lambda>k.
    (p0 @ map (toSample dem) (filter (resolves dem)
            (concat (map (segmentCandidates coords samples) [0..<k]))),
     distanceBefore coords k))"
  have "foldl step (p0, Fin 0) [0..<k] = rhs k"
  proof (induction k)
    case 0
    show ?case by (simp add: rhs_def distanceBefore_def)
  next
    case (Suc k)
    have "foldl step (p0, Fin 0) [0..<Suc k] = step (foldl step (p0, Fin 0) [0..<k]) k"
      by simp
    also have "\<dots> = step (rhs k) k"
      by (simp only: Suc)
    also have "\<dots> = rhs (Suc k)"
      by (simp add: step_def rhs_def Let_def sampleSegment_eq segmentCandidates_def
            distanceBefore_Suc)
    finally show ?case .
  qed
  then show ?thesis
    unfolding step_def rhs_def .
qed

lemma calculateLineDistance_before:
  "calculateLineDistance coords = distanceBefore coords (length coords - 1)"
  by (simp add: calculateLineDistance_def distanceBefore_def)

lemma calculateLineDistance_short: "length coords \<le> 1 \<Longrightarrow> calculateLineDistance coords = Fin 0"
  by (simp add: calculateLineDistance_def)

text \<open>
  The loops of \<^verbatim>\<open>getProfileFromDem\<close> build exactly the list of valid samples.
\<close>

lemma profile_is_valid_samples:
  "getProfileFromDem coords dem samples =
     (if numEq (calculateLineDistance coords) (Fin 0) \<or> length (validSamples coords dem samples) < 2
      then None else Some (validSamples coords dem samples))"
proof (cases "numEq (calculateLineDistance coords) (Fin 0)")
  case True
  then show ?thesis by (simp add: getProfileFromDem_def)
next
  case False
  then have "coords \<noteq> []"
    by (auto simp: calculateLineDistance_def numEq_def)
  then obtain c0 cs where c: "coords = c0 # cs"
    by (cases coords) auto
  have key: "fst (sampleSegments dem coords samples (calculateLineDistance coords)
              (if getElevationFromDem (fst c0) (snd c0) dem \<noteq> JNull
               then [\<lparr>distance = Fin 0, elevation = getElevationFromDem (fst c0) (snd c0) dem\<rparr>]
               else [], Fin 0)) =
        validSamples coords dem samples"
    unfolding sampleSegments_def segments_fold validSamples_def profileCandidates_def
    by (simp add: c resolves_def toSample_def)
  have "getProfileFromDem coords dem samples =
          (if length (validSamples coords dem samples) > 1
           then Some (validSamples coords dem samples) else None)"
    unfolding getProfileFromDem_def Let_def
    using False by (simp add: c key [unfolded c] split del: if_split cong del: if_weak_cong)
  then show ?thesis
    using False by auto
qed

lemma atan2_finiteOrNaN: "finiteOrNaN (Math_atan2 y x)"
  by (cases y; cases x) (simp_all add: finiteOrNaN_def)

lemma Fin_times_finiteOrNaN: "finiteOrNaN x \<Longrightarrow> finiteOrNaN (Fin a * x)"
  by (cases x) (simp_all add: finiteOrNaN_def times_jsnum_def)

lemma plus_finiteOrNaN: "finiteOrNaN x \<Longrightarrow> finiteOrNaN y \<Longrightarrow> finiteOrNaN (x + y)"
  by (cases x; cases y) (simp_all add: finiteOrNaN_def plus_jsnum_def)

lemma haversine_finiteOrNaN: "finiteOrNaN (haversineDistance p q)"
  by (simp add: haversineDistance_def Let_def Fin_times_finiteOrNaN atan2_finiteOrNaN)

lemma distanceBefore_finiteOrNaN: "finiteOrNaN (distanceBefore coords k)"
  by (induction k)
     (simp_all add: distanceBefore_Suc plus_finiteOrNaN haversine_finiteOrNaN,
      simp add: distanceBefore_def finiteOrNaN_def)

lemma calculateLineDistance_finiteOrNaN: "finiteOrNaN (calculateLineDistance coords)"
  by (simp add: calculateLineDistance_before distanceBefore_finiteOrNaN)

lemma numSegmentSamples_finiteOrNaN:
  assumes "finiteOrNaN segmentDist" "finiteOrNaN totalKm" "\<not> numEq totalKm (Fin 0)"
  shows "finiteOrNaN (numSegmentSamples samples segmentDist totalKm)"
  using assms
  by (cases segmentDist; cases totalKm)
     (auto simp: finiteOrNaN_def numSegmentSamples_def numEq_def divide_jsnum_def times_jsnum_def)

lemma numSegmentSamples_cases:
  assumes "\<not> numEq (calculateLineDistance coords) (Fin 0)"
  shows "numSegmentSamples samples (haversineDistance p q) (calculateLineDistance coords) \<noteq> PosInf"
  using numSegmentSamples_finiteOrNaN [OF haversine_finiteOrNaN calculateLineDistance_finiteOrNaN assms]
  by (simp add: finiteOrNaN_def)

lemma flatDem_inside:
  assumes "0 \<le> x" "x < 1" "0 < y" "y \<le> 1"
  shows "getElevationFromDem (Fin x) (Fin y) flatDem = JNum (Fin 50)"
proof -
  have px: "0 \<le> \<lfloor>x * 10\<rfloor>" "\<lfloor>x * 10\<rfloor> < 10"
    using assms by (simp_all add: floor_less_iff)
  have py: "0 \<le> \<lfloor>(1 - y) * 10\<rfloor>" "\<lfloor>(1 - y) * 10\<rfloor> < 10"
    using assms by (simp_all add: floor_less_iff)
  define k where "k = \<lfloor>(1 - y) * 10\<rfloor> * 10 + \<lfloor>x * 10\<rfloor>"
  have k: "0 \<le> k" "k < 100"
    using px py unfolding k_def by linarith+
  have cell: "demCell (Fin x) (Fin y) flatDem = Some (Fin (real_of_int k))"
    using assms px py
    by (simp add: demCell_def applyProj_def cellIndices_def cellFraction_def flatDem_def k_def
          not_less not_le)
  have v: "typedArrayGet (rasterValues flatDem) (Fin (real_of_int k)) = JNum (Fin 50)"
    using k by (simp add: flatDem_def)
  have nd: "noDataValue flatDem = JNum (Fin (- 9999))"
    by (simp add: flatDem_def)
  show ?thesis
    by (simp add: getElevationFromDem_def cell v nd numEq_def del: typedArrayGet.simps)
qed


lemma atan2_nonneg: "0 \<le> a \<Longrightarrow> a \<le> 1 \<Longrightarrow> 0 \<le> atan2 (sqrt a) (sqrt (1 - a))"
  by (auto simp: atan2_def not_less)

lemma atan2_pos: "0 < a \<Longrightarrow> a \<le> 1 \<Longrightarrow> 0 < atan2 (sqrt a) (sqrt (1 - a))"
  by (auto simp: atan2_def not_less)


lemma haversine_pos:
  "0 < havA x1 y1 x2 y2 \<Longrightarrow> \<exists>d. haversineDistance (Fin x1, Fin y1) (Fin x2, Fin y2) = Fin d \<and> 0 < d"
  using havA_range [of x1 y1 x2 y2] by (simp add: haversine_Fin atan2_pos)

lemma meridian_havA: "0 < havA (1 / 2) (1 / 5) (1 / 2) (3 / 5)"
proof -
  have "0 < sin (pi / 900)"
    by (rule sin_gt_zero) (use pi_gt_zero in simp_all)
  then show ?thesis
    by (simp add: havA_def)
qed

text \<open>
  C5. \<^verbatim>\<open>getProfileFromDem\<close> returns \<^verbatim>\<open>null\<close> exactly when the length of the line is
  zero or fewer than two valid samples have been collected; otherwise it returns the
  valid samples, at least two.
\<close>

theorem profile_none_iff:
  "(getProfileFromDem coords dem samples = None \<longleftrightarrow>
      numEq (calculateLineDistance coords) (Fin 0) \<or>
      length (validSamples coords dem samples) < 2) \<and>
   (\<forall>profile. getProfileFromDem coords dem samples = Some profile \<longrightarrow>
      profile = validSamples coords dem samples \<and> 2 \<le> length profile)"
  by (simp add: profile_is_valid_samples)

lemma meridianLine_candidates:
  "\<exists>d > 0. calculateLineDistance meridianLine = Fin d \<and>
     profileCandidates meridianLine 2 =
       [((Fin (1 / 2), Fin (1 / 5)), Fin 0),
        ((Fin (1 / 2), Fin (2 / 5)), Fin (d / 2 * 1000)),
        ((Fin (1 / 2), Fin (3 / 5)), Fin (d * 1000))]"
proof -
  obtain d where d: "haversineDistance (Fin (1 / 2), Fin (1 / 5)) (Fin (1 / 2), Fin (3 / 5)) = Fin d"
    and pos: "0 < d"
    using haversine_pos [OF meridian_havA] by blast
  have total: "calculateLineDistance meridianLine = Fin d"
    by (simp add: calculateLineDistance_def meridianLine_def d)
  have n: "numSegmentSamples 2 (Fin d) (Fin d) = Fin 2"
    using pos by (simp add: numSegmentSamples_def)
  have idx: "[Suc 0..<3] = [1, 2]"
    by (simp add: upt_rec)
  have "profileCandidates meridianLine 2 =
       [((Fin (1 / 2), Fin (1 / 5)), Fin 0),
        ((Fin (1 / 2), Fin (2 / 5)), Fin (d / 2 * 1000)),
        ((Fin (1 / 2), Fin (3 / 5)), Fin (d * 1000))]"
    unfolding profileCandidates_def segmentCandidates_def total
    by (simp add: meridianLine_def d n idx samplePoint_def distanceBefore_def)
  with total pos show ?thesis by blast
qed

lemma meridianLine_valid: "length (validSamples meridianLine flatDem 2) = 3"
proof -
  obtain d where "profileCandidates meridianLine 2 =
       [((Fin (1 / 2), Fin (1 / 5)), Fin 0),
        ((Fin (1 / 2), Fin (2 / 5)), Fin (d / 2 * 1000)),
        ((Fin (1 / 2), Fin (3 / 5)), Fin (d * 1000))]"
    using meridianLine_candidates by blast
  then show ?thesis
    by (simp add: validSamples_def resolves_def flatDem_inside)
qed

lemma meridianLine_length: "\<not> numEq (calculateLineDistance meridianLine) (Fin 0)"
  using meridianLine_candidates by (auto simp: numEq_def)

lemma pointLine_length: "numEq (calculateLineDistance pointLine) (Fin 0)"
proof -
  have "havA (1 / 2) (1 / 2) (1 / 2) (1 / 2) = 0"
    by (simp add: havA_def)
  then show ?thesis
    by (simp add: calculateLineDistance_def pointLine_def haversine_Fin atan2_def numEq_def)
qed

theorem profile_none_iff_witness:
  "numEq (calculateLineDistance pointLine) (Fin 0) \<and>
   getProfileFromDem pointLine flatDem 2 = None \<and>
   \<not> numEq (calculateLineDistance meridianLine) (Fin 0) \<and>
   length (validSamples meridianLine flatDem 2) = 3 \<and>
   getProfileFromDem meridianLine flatDem 2 = Some (validSamples meridianLine flatDem 2)"
proof -
  have a: "getProfileFromDem pointLine flatDem 2 = None"
    using profile_none_iff [of pointLine flatDem 2] pointLine_length by blast
  have "getProfileFromDem meridianLine flatDem 2 \<noteq> None"
    using profile_none_iff [of meridianLine flatDem 2] meridianLine_length meridianLine_valid
    by simp
  then have b: "getProfileFromDem meridianLine flatDem 2 = Some (validSamples meridianLine flatDem 2)"
    using profile_none_iff [of meridianLine flatDem 2] by auto
  from a b pointLine_length meridianLine_length meridianLine_valid show ?thesis
    by blast
qed


section \<open>ProfileExtractor: the distances of a profile\<close>

lemma haversine_finCoord: "haversineDistance (finCoord p) (finCoord q) = Fin (havKm p q)"
  by (simp add: finCoord_def havKm_def haversine_Fin)

lemma havKm_nonneg: "0 \<le> havKm p q"
  using havA_range [of "fst p" "snd p" "fst q" "snd q"]
  by (simp add: havKm_def atan2_nonneg)

lemma accKm_Suc: "accKm rs (Suc k) = accKm rs k + havKm (rs ! k) (rs ! Suc k)"
  by (simp add: accKm_def)

lemma accKm_nonneg: "0 \<le> accKm rs k"
  by (simp add: accKm_def sum_nonneg havKm_nonneg)

lemma accKm_mono: "k \<le> m \<Longrightarrow> accKm rs k \<le> accKm rs m"
  by (induction m) (auto simp: accKm_Suc le_Suc_eq intro: order_trans add_increasing2 havKm_nonneg)

lemma distanceBefore_fin:
  "k < length rs \<Longrightarrow> distanceBefore (map finCoord rs) k = Fin (accKm rs k)"
proof (induction k)
  case 0
  show ?case by (simp add: distanceBefore_def accKm_def)
next
  case (Suc k)
  then show ?case
    by (simp add: distanceBefore_Suc accKm_Suc haversine_finCoord)
qed

lemma calculateLineDistance_fin:
  "calculateLineDistance (map finCoord rs) = Fin (accKm rs (length rs - 1))"
proof (cases "rs = []")
  case True
  then show ?thesis by (simp add: calculateLineDistance_def accKm_def)
next
  case False
  then have "length rs - 1 < length rs" by simp
  from distanceBefore_fin [OF this] show ?thesis
    by (simp add: calculateLineDistance_before)
qed

lemma numSegmentSamples_fin:
  "T \<noteq> 0 \<Longrightarrow> numSegmentSamples samples (Fin h) (Fin T) =
     Fin (real_of_int (max 2 \<lceil>samples * (h / T)\<rceil>))"
  by (simp add: numSegmentSamples_def max_def less_jsnum_def) linarith


lemma segN_ge: "2 \<le> segN rs samples i"
  by (simp add: segN_def)

lemma segment_candidates_fin:
  assumes i: "Suc i < length rs" and T: "accKm rs (length rs - 1) \<noteq> 0"
  shows "segmentCandidates (map finCoord rs) samples i =
     map (\<lambda>j. ((Fin (fst (rs ! i) + (fst (rs ! Suc i) - fst (rs ! i)) *
                        (real j / real_of_int (segN rs samples i))),
                 Fin (snd (rs ! i) + (snd (rs ! Suc i) - snd (rs ! i)) *
                        (real j / real_of_int (segN rs samples i)))),
                Fin ((accKm rs i + havKm (rs ! i) (rs ! Suc i) *
                        (real j / real_of_int (segN rs samples i))) * 1000)))
       [1..<nat (segN rs samples i) + 1]"
proof -
  let ?cs = "map finCoord rs"
  let ?h = "havKm (rs ! i) (rs ! Suc i)"
  let ?N = "segN rs samples i"
  have N: "real_of_int ?N \<noteq> 0"
    using segN_ge [of rs samples i] by simp
  have i': "i < length rs" using i by simp
  have s: "?cs ! i = finCoord (rs ! i)" "?cs ! (i + 1) = finCoord (rs ! Suc i)"
    using i i' by simp_all
  have h: "haversineDistance (finCoord (rs ! i)) (finCoord (rs ! Suc i)) = Fin ?h"
    by (rule haversine_finCoord)
  have n: "numSegmentSamples samples (Fin ?h) (calculateLineDistance ?cs) = Fin (real_of_int ?N)"
    using T by (simp add: calculateLineDistance_fin numSegmentSamples_fin segN_def)
  have idx: "sampleIndices (Fin (real_of_int ?N)) = [1..<nat ?N + 1]"
    by simp
  have db: "distanceBefore ?cs i = Fin (accKm rs i)"
    using i' by (rule distanceBefore_fin)
  have sp: "samplePoint (finCoord (rs ! i)) (finCoord (rs ! Suc i)) (Fin ?h) (Fin (accKm rs i))
              (Fin (real_of_int ?N)) =
            (\<lambda>j. ((Fin (fst (rs ! i) + (fst (rs ! Suc i) - fst (rs ! i)) *
                        (real j / real_of_int ?N)),
                 Fin (snd (rs ! i) + (snd (rs ! Suc i) - snd (rs ! i)) *
                        (real j / real_of_int ?N))),
                Fin ((accKm rs i + ?h * (real j / real_of_int ?N)) * 1000)))"
    using N by (simp add: samplePoint_def finCoord_def fun_eq_iff)
  show ?thesis
    unfolding segmentCandidates_def Let_def s h n idx db sp ..
qed


lemma metres_mono: "x \<le> y \<Longrightarrow> (acc + x) * 1000 \<le> (acc + y) * (1000 :: real)"
  by simp

lemma frac_bounds:
  fixes h t lo :: real
  assumes "0 \<le> h" "0 \<le> t" "t \<le> 1"
  shows "lo * 1000 \<le> (lo + h * t) * 1000 \<and> (lo + h * t) * 1000 \<le> (lo + h) * 1000"
  using assms by (simp add: mult_left_le)

lemma distIn_Fin: "lo \<le> d \<Longrightarrow> d \<le> hi \<Longrightarrow> snd c = Fin d \<Longrightarrow> distIn lo hi c"
  by (simp add: distIn_def)

lemma segment_candidates_props:
  assumes i: "Suc i < length rs" and T: "accKm rs (length rs - 1) \<noteq> 0"
  shows "sorted_wrt distLe (segmentCandidates (map finCoord rs) samples i)"
    and "\<forall>c \<in> set (segmentCandidates (map finCoord rs) samples i).
           distIn (accKm rs i * 1000) (accKm rs (Suc i) * 1000) c"
    and "segmentCandidates (map finCoord rs) samples i \<noteq> []"
    and "last (segmentCandidates (map finCoord rs) samples i) =
           (finCoord (rs ! Suc i), Fin (accKm rs (Suc i) * 1000))"
proof -
  let ?h = "havKm (rs ! i) (rs ! Suc i)"
  let ?N = "segN rs samples i"
  have N: "2 \<le> ?N" by (rule segN_ge)
  have h: "0 \<le> ?h" by (rule havKm_nonneg)
  note eq = segment_candidates_fin [OF i T, of samples]
  have mono: "(accKm rs i + ?h * (real a / real_of_int ?N)) * 1000 \<le>
              (accKm rs i + ?h * (real b / real_of_int ?N)) * 1000" if "a < b" for a b
  proof -
    have "real a / real_of_int ?N \<le> real b / real_of_int ?N"
      using that N by (simp add: divide_right_mono)
    then have "?h * (real a / real_of_int ?N) \<le> ?h * (real b / real_of_int ?N)"
      using h by (rule mult_left_mono)
    then show ?thesis
      by (rule metres_mono)
  qed
  show "sorted_wrt distLe (segmentCandidates (map finCoord rs) samples i)"
    unfolding eq sorted_wrt_map
  proof (rule sorted_wrt_mono_rel [OF _ sorted_wrt_upt])
    fix a b :: nat
    assume "a < b"
    from mono [OF this]
    show "distLe
            ((Fin (fst (rs ! i) + (fst (rs ! Suc i) - fst (rs ! i)) * (real a / real_of_int ?N)),
              Fin (snd (rs ! i) + (snd (rs ! Suc i) - snd (rs ! i)) * (real a / real_of_int ?N))),
             Fin ((accKm rs i + ?h * (real a / real_of_int ?N)) * 1000))
            ((Fin (fst (rs ! i) + (fst (rs ! Suc i) - fst (rs ! i)) * (real b / real_of_int ?N)),
              Fin (snd (rs ! i) + (snd (rs ! Suc i) - snd (rs ! i)) * (real b / real_of_int ?N))),
             Fin ((accKm rs i + ?h * (real b / real_of_int ?N)) * 1000))"
      unfolding distLe_def by (simp only: snd_conv Fin_le)
  qed
  show "\<forall>c \<in> set (segmentCandidates (map finCoord rs) samples i).
           distIn (accKm rs i * 1000) (accKm rs (Suc i) * 1000) c"
  proof
    fix c assume "c \<in> set (segmentCandidates (map finCoord rs) samples i)"
    then obtain j where j: "1 \<le> j" "j < nat ?N + 1"
      and c: "snd c = Fin ((accKm rs i + ?h * (real j / real_of_int ?N)) * 1000)"
      unfolding eq by auto
    have t: "0 \<le> real j / real_of_int ?N" "real j / real_of_int ?N \<le> 1"
      using j N by (simp_all add: divide_le_eq_1)
    from frac_bounds [OF h t, of "accKm rs i"]
    have "accKm rs i * 1000 \<le> (accKm rs i + ?h * (real j / real_of_int ?N)) * 1000"
      and "(accKm rs i + ?h * (real j / real_of_int ?N)) * 1000 \<le> accKm rs (Suc i) * 1000"
      unfolding accKm_Suc by blast+
    then show "distIn (accKm rs i * 1000) (accKm rs (Suc i) * 1000) c"
      using c by (rule distIn_Fin)
  qed
  have "1 \<le> nat ?N"
    using N by simp
  then have upt: "[1..<nat ?N + 1] = [1..<nat ?N] @ [nat ?N]"
    by simp
  show "segmentCandidates (map finCoord rs) samples i \<noteq> []"
    unfolding eq upt by simp
  have f1: "real (nat ?N) / real_of_int ?N = 1"
    using N by simp
  have l: "last (segmentCandidates (map finCoord rs) samples i) =
     ((Fin (fst (rs ! i) + (fst (rs ! Suc i) - fst (rs ! i)) * (real (nat ?N) / real_of_int ?N)),
       Fin (snd (rs ! i) + (snd (rs ! Suc i) - snd (rs ! i)) * (real (nat ?N) / real_of_int ?N))),
      Fin ((accKm rs i + ?h * (real (nat ?N) / real_of_int ?N)) * 1000))"
    unfolding eq upt by (simp only: map_append last_snoc list.map)
  show "last (segmentCandidates (map finCoord rs) samples i) =
           (finCoord (rs ! Suc i), Fin (accKm rs (Suc i) * 1000))"
    unfolding l f1 accKm_Suc finCoord_def by simp
qed


lemma distIn_distLe: "distIn lo hi a \<Longrightarrow> distIn lo' hi' b \<Longrightarrow> hi \<le> lo' \<Longrightarrow> distLe a b"
  by (auto simp: distIn_def distLe_def split: jsnum.splits)

lemma distIn_mono: "distIn lo hi a \<Longrightarrow> lo' \<le> lo \<Longrightarrow> hi \<le> hi' \<Longrightarrow> distIn lo' hi' a"
  by (auto simp: distIn_def split: jsnum.splits)

lemma prefix_candidates_props:
  assumes T: "accKm rs (length rs - 1) \<noteq> 0"
  shows "k < length rs \<Longrightarrow>
     sorted_wrt distLe (concat (map (segmentCandidates (map finCoord rs) samples) [0..<k])) \<and>
     (\<forall>c \<in> set (concat (map (segmentCandidates (map finCoord rs) samples) [0..<k])).
        distIn 0 (accKm rs k * 1000) c)"
proof (induction k)
  case 0
  show ?case by simp
next
  case (Suc k)
  let ?seg = "segmentCandidates (map finCoord rs) samples"
  let ?old = "concat (map ?seg [0..<k])"
  have k: "k < length rs" using Suc.prems by simp
  note IH = Suc.IH [OF k]
  note A = segment_candidates_props [OF Suc.prems T, of samples]
  have split: "concat (map ?seg [0..<Suc k]) = ?old @ ?seg k"
    by simp
  have le: "accKm rs k * 1000 \<le> accKm rs (Suc k) * 1000"
    using accKm_mono [of k "Suc k" rs] by simp
  have ge: "0 \<le> accKm rs k * 1000"
    using accKm_nonneg [of rs k] by simp
  have cross: "\<forall>x \<in> set ?old. \<forall>y \<in> set (?seg k). distLe x y"
    using IH A(2) by (blast intro: distIn_distLe)
  have "sorted_wrt distLe (?old @ ?seg k)"
    unfolding sorted_wrt_append using IH A(1) cross by blast
  moreover have "\<forall>c \<in> set (?old @ ?seg k). distIn 0 (accKm rs (Suc k) * 1000) c"
  proof
    fix c
    assume "c \<in> set (?old @ ?seg k)"
    then consider "c \<in> set ?old" | "c \<in> set (?seg k)"
      by (simp only: set_append Un_iff) blast
    then show "distIn 0 (accKm rs (Suc k) * 1000) c"
    proof cases
      case 1
      then have "distIn 0 (accKm rs k * 1000) c" using IH by blast
      then show ?thesis using order_refl le by (rule distIn_mono)
    next
      case 2
      then have "distIn (accKm rs k * 1000) (accKm rs (Suc k) * 1000) c" using A(2) by blast
      then show ?thesis using ge order_refl by (rule distIn_mono)
    qed
  qed
  ultimately show ?case
    unfolding split by blast
qed

lemma last_filter_keep: "xs \<noteq> [] \<Longrightarrow> P (last xs) \<Longrightarrow> last (filter P xs) = last xs"
  by (cases xs rule: rev_cases) simp_all

lemma profile_candidates_props:
  assumes T: "accKm rs (length rs - 1) \<noteq> 0"
  shows "sorted_wrt distLe (profileCandidates (map finCoord rs) samples)"
    and "\<forall>c \<in> set (profileCandidates (map finCoord rs) samples).
           distIn 0 (accKm rs (length rs - 1) * 1000) c"
    and "last (profileCandidates (map finCoord rs) samples) =
           (finCoord (last rs), Fin (accKm rs (length rs - 1) * 1000))"
proof -
  let ?seg = "segmentCandidates (map finCoord rs) samples"
  let ?m = "length rs - 1"
  have m: "0 < ?m"
    using T by (cases "?m = 0") (simp_all add: accKm_def)
  then have lt: "?m < length rs" and lt': "Suc (?m - 1) < length rs" and ne: "rs \<noteq> []"
    by auto
  note B = prefix_candidates_props [OF T lt, of samples]
  have first: "distIn 0 (accKm rs ?m * 1000) ((hd (map finCoord rs), Fin 0) :: coord \<times> jsnum)"
    using accKm_nonneg [of rs ?m] by (simp add: distIn_def)
  have zero: "distIn 0 0 ((hd (map finCoord rs), Fin 0) :: coord \<times> jsnum)"
    by (simp add: distIn_def)
  have "\<forall>y \<in> set (concat (map ?seg [0..<?m])). distLe (hd (map finCoord rs), Fin 0) y"
    using B by (blast intro: distIn_distLe [OF zero])
  then show "sorted_wrt distLe (profileCandidates (map finCoord rs) samples)"
    unfolding profileCandidates_def sorted_wrt.simps length_map using B by blast
  show "\<forall>c \<in> set (profileCandidates (map finCoord rs) samples).
           distIn 0 (accKm rs ?m * 1000) c"
    unfolding profileCandidates_def length_map using B first
    by (simp only: set_simps ball_simps) blast
  note A = segment_candidates_props [OF lt' T, of samples]
  obtain m' where m': "?m = Suc m'"
    using m by (cases ?m) simp_all
  have "[0..<?m] = [0..<?m - 1] @ [?m - 1]"
    unfolding m' by simp
  then have "concat (map ?seg [0..<?m]) = concat (map ?seg [0..<?m - 1]) @ ?seg (?m - 1)"
    by simp
  then have "last (concat (map ?seg [0..<?m])) = last (?seg (?m - 1))"
    using A(3) by simp
  also have "\<dots> = (finCoord (rs ! ?m), Fin (accKm rs ?m * 1000))"
    using A(4) unfolding m' by simp
  finally have e: "last (concat (map ?seg [0..<?m])) =
                     (finCoord (last rs), Fin (accKm rs ?m * 1000))"
    using ne by (simp add: last_conv_nth)
  have "concat (map ?seg [0..<?m]) \<noteq> []"
    using \<open>concat (map ?seg [0..<?m]) = concat (map ?seg [0..<?m - 1]) @ ?seg (?m - 1)\<close> A(3)
    by simp
  then have "last ((hd (map finCoord rs), Fin 0) # concat (map ?seg [0..<?m])) =
             last (concat (map ?seg [0..<?m]))"
    by (rule last_ConsR)
  then show "last (profileCandidates (map finCoord rs) samples) =
           (finCoord (last rs), Fin (accKm rs ?m * 1000))"
    unfolding profileCandidates_def length_map e .
qed

text \<open>
  C3, as the code has it. For a line of finite coordinates and a successful profile:
  the distances are non-decreasing, every distance is at most \<open>lineLength * 1000\<close>, and
  the final distance is equal to \<open>lineLength * 1000\<close> when the sampler resolves the last
  point that the loops compute: the point of \<^verbatim>\<open>j = numSegmentSamples\<close>, where \<^verbatim>\<open>t\<close> is 1,
  on the last segment (lines 158 to 160). The condition is on that computed point, not on
  the last vertex of the line.
\<close>

theorem profile_distances_monotone:
  assumes "getProfileFromDem (map finCoord rs) dem samples = Some profile"
  shows "(\<forall>i. Suc i < length profile \<longrightarrow> distance (profile ! i) \<le> distance (profile ! Suc i)) \<and>
         (\<forall>s \<in> set profile. distance s \<le> calculateLineDistance (map finCoord rs) * Fin 1000) \<and>
         (resolves dem (last (profileCandidates (map finCoord rs) samples)) \<longrightarrow>
            distance (last profile) = calculateLineDistance (map finCoord rs) * Fin 1000)"
proof -
  let ?cands = "profileCandidates (map finCoord rs) samples"
  let ?T = "accKm rs (length rs - 1)"
  have nz: "\<not> numEq (calculateLineDistance (map finCoord rs)) (Fin 0)"
    and p: "profile = validSamples (map finCoord rs) dem samples"
    using assms unfolding profile_is_valid_samples by (auto split: if_splits)
  have total: "calculateLineDistance (map finCoord rs) = Fin ?T"
    by (rule calculateLineDistance_fin)
  have T: "?T \<noteq> 0"
    using nz unfolding total by (simp add: numEq_def)
  note P = profile_candidates_props [OF T, of samples]
  have p': "profile = map (toSample dem) (filter (resolves dem) ?cands)"
    unfolding p validSamples_def ..
  have "sorted_wrt distLe (filter (resolves dem) ?cands)"
    using P(1) by (rule sorted_wrt_filter)
  then have "sorted_wrt (\<lambda>a b. distance a \<le> distance b) profile"
    unfolding p' sorted_wrt_map by (simp add: toSample_def distLe_def [abs_def])
  then have mono: "\<forall>i. Suc i < length profile \<longrightarrow>
                     distance (profile ! i) \<le> distance (profile ! Suc i)"
    unfolding sorted_wrt_iff_nth_less by blast
  have bound: "\<forall>s \<in> set profile. distance s \<le> calculateLineDistance (map finCoord rs) * Fin 1000"
  proof
    fix s assume "s \<in> set profile"
    then obtain c where c: "c \<in> set ?cands" and s: "s = toSample dem c"
      unfolding p' by auto
    from P(2) c have "distIn 0 (?T * 1000) c" by blast
    then show "distance s \<le> calculateLineDistance (map finCoord rs) * Fin 1000"
      unfolding total s by (auto simp: distIn_def toSample_def split: jsnum.splits)
  qed
  have last: "distance (last profile) = calculateLineDistance (map finCoord rs) * Fin 1000"
    if res: "resolves dem (last ?cands)"
  proof -
    have ne: "?cands \<noteq> []"
      by (simp add: profileCandidates_def)
    have l: "last (filter (resolves dem) ?cands) = last ?cands"
      using ne res by (rule last_filter_keep)
    have "last ?cands \<in> set ?cands"
      using ne by (rule last_in_set)
    then have "filter (resolves dem) ?cands \<noteq> []"
      using res by (auto simp: filter_empty_conv)
    then have "last profile = toSample dem (last ?cands)"
      unfolding p' by (simp add: last_map l)
    then show ?thesis
      unfolding total P(3) by (simp add: toSample_def)
  qed
  from mono bound last show ?thesis by blast
qed

lemma atan2_sin_cos:
  assumes "0 \<le> h" "h \<le> pi / 2"
  shows "atan2 (sin h) (cos h) = h"
proof (cases "h = pi / 2")
  case True
  show ?thesis unfolding True atan2_def by simp
next
  case False
  then have lt: "h < pi / 2" using assms by simp
  then have c: "0 < cos h"
    using assms by (intro cos_gt_zero_pi) simp_all
  have "arctan (tan h) = h"
    using assms lt by (intro arctan_tan) simp_all
  then show ?thesis
    using c by (simp add: atan2_def tan_def)
qed

lemma haversine_meridian:
  assumes "0 \<le> y2 - y1" "y2 - y1 \<le> 180"
  shows "haversineDistance (Fin x, Fin y1) (Fin x, Fin y2) = Fin (6371 * ((y2 - y1) * pi / 180))"
proof -
  define h where "h = (y2 - y1) * pi / 180 / 2"
  have h: "0 \<le> h" "h \<le> pi / 2"
    using assms by (simp_all add: h_def)
  have s: "0 \<le> sin h"
    using h by (intro sin_ge_zero) simp_all
  have c: "0 \<le> cos h"
    using h by (intro cos_ge_zero) simp_all
  have a: "havA x y1 x y2 = (sin h)\<^sup>2"
    by (simp add: havA_def h_def power2_eq_square)
  have "1 - (sin h)\<^sup>2 = (cos h)\<^sup>2"
    by (simp add: cos_squared_eq)
  then have "atan2 (sqrt (havA x y1 x y2)) (sqrt (1 - havA x y1 x y2)) = atan2 (sin h) (cos h)"
    unfolding a using s c by simp
  also have "\<dots> = h"
    using h by (rule atan2_sin_cos)
  finally have e: "atan2 (sqrt (havA x y1 x y2)) (sqrt (1 - havA x y1 x y2)) = h" .
  show ?thesis
    unfolding haversine_Fin e h_def by simp
qed

lemma exitLine_length: "calculateLineDistance exitLine = Fin (6371 * pi / 150)"
  by (simp add: calculateLineDistance_def exitLine_def haversine_meridian)

lemma exitLine_candidates:
  "profileCandidates exitLine 2 =
       [((Fin (1 / 2), Fin (1 / 5)), Fin 0),
        ((Fin (1 / 2), Fin (4 / 5)), Fin (6371 * pi / 150 * 500)),
        ((Fin (1 / 2), Fin (7 / 5)), Fin (6371 * pi / 150 * 1000))]"
proof -
  have d: "haversineDistance (Fin (1 / 2), Fin (1 / 5)) (Fin (1 / 2), Fin (7 / 5)) =
           Fin (6371 * pi / 150)"
    by (simp add: haversine_meridian)
  have n: "numSegmentSamples 2 (Fin (6371 * pi / 150)) (Fin (6371 * pi / 150)) = Fin 2"
    by (simp add: numSegmentSamples_def)
  have idx: "[Suc 0..<3] = [1, 2]"
    by (simp add: upt_rec)
  show ?thesis
    unfolding profileCandidates_def segmentCandidates_def exitLine_length
    by (simp add: exitLine_def d n idx samplePoint_def distanceBefore_def)
qed

lemma flatDem_north: "1 < y \<Longrightarrow> getElevationFromDem (Fin x) (Fin y) flatDem = JNull"
  by (simp add: getElevationFromDem_def demCell_def flatDem_def)

lemma exitLine_valid:
  "validSamples exitLine flatDem 2 =
     [\<lparr>distance = Fin 0, elevation = JNum (Fin 50)\<rparr>,
      \<lparr>distance = Fin (6371 * pi / 150 * 500), elevation = JNum (Fin 50)\<rparr>]"
  unfolding validSamples_def exitLine_candidates
  by (simp add: resolves_def toSample_def flatDem_inside flatDem_north)

text \<open>
  C3 as stated fails: the line from latitude 0.2 to latitude 1.4 leaves the raster, whose
  northern edge is at latitude 1. With a budget of 2 samples the profile holds the start
  vertex and the midpoint; its final distance is half of \<open>lineLength * 1000\<close>, more than
  40 km short of it.
\<close>

theorem profile_final_distance_short:
  "getProfileFromDem exitLine flatDem 2 = Some (validSamples exitLine flatDem 2) \<and>
   distance (last (validSamples exitLine flatDem 2)) = calculateLineDistance exitLine * Fin 500 \<and>
   Fin 80 < calculateLineDistance exitLine \<and>
   distance (last (validSamples exitLine flatDem 2)) + Fin 40000 <
     calculateLineDistance exitLine * Fin 1000"
proof -
  have "getProfileFromDem exitLine flatDem 2 = Some (validSamples exitLine flatDem 2)"
    unfolding profile_is_valid_samples exitLine_length exitLine_valid
    by (simp add: numEq_def)
  moreover have "(80 :: real) < 6371 * pi / 150"
    using pi_ge_two by simp
  ultimately show ?thesis
    unfolding exitLine_length exitLine_valid by simp
qed

lemma meridianLine_fin: "meridianLine = map finCoord [(1 / 2, 1 / 5), (1 / 2, 3 / 5)]"
  by (simp add: meridianLine_def finCoord_def)

lemma meridianLine_last: "resolves flatDem (last (profileCandidates meridianLine 2))"
proof -
  obtain d where "profileCandidates meridianLine 2 =
       [((Fin (1 / 2), Fin (1 / 5)), Fin 0),
        ((Fin (1 / 2), Fin (2 / 5)), Fin (d / 2 * 1000)),
        ((Fin (1 / 2), Fin (3 / 5)), Fin (d * 1000))]"
    using meridianLine_candidates by blast
  then show ?thesis
    by (simp add: resolves_def flatDem_inside)
qed

theorem profile_distances_monotone_witness:
  "getProfileFromDem meridianLine flatDem 2 = Some (validSamples meridianLine flatDem 2) \<and>
   distance (validSamples meridianLine flatDem 2 ! 0) \<le> distance (validSamples meridianLine flatDem 2 ! 1) \<and>
   distance (validSamples meridianLine flatDem 2 ! 1) \<le> distance (validSamples meridianLine flatDem 2 ! 2) \<and>
   resolves flatDem (last (profileCandidates meridianLine 2)) \<and>
   distance (last (validSamples meridianLine flatDem 2)) = calculateLineDistance meridianLine * Fin 1000"
proof -
  let ?p = "validSamples meridianLine flatDem 2"
  have a: "getProfileFromDem (map finCoord [(1 / 2, 1 / 5), (1 / 2, 3 / 5)]) flatDem 2 = Some ?p"
    using meridianLine_length meridianLine_valid
    unfolding meridianLine_fin [symmetric] profile_is_valid_samples by simp
  have len: "length ?p = 3"
    by (rule meridianLine_valid)
  note t = profile_distances_monotone [OF a, unfolded meridianLine_fin [symmetric]]
  from t have "Suc 0 < length ?p \<longrightarrow> distance (?p ! 0) \<le> distance (?p ! Suc 0)"
    by blast
  then have m0: "distance (?p ! 0) \<le> distance (?p ! 1)"
    unfolding len by simp
  from t have "Suc 1 < length ?p \<longrightarrow> distance (?p ! 1) \<le> distance (?p ! Suc 1)"
    by blast
  then have m1: "distance (?p ! 1) \<le> distance (?p ! 2)"
    unfolding len by (simp add: numeral_2_eq_2)
  from t meridianLine_last
  have "distance (last ?p) = calculateLineDistance meridianLine * Fin 1000"
    by blast
  with m0 m1 a meridianLine_last show ?thesis
    unfolding meridianLine_fin [symmetric] by blast
qed


section \<open>GeodesicMath: the area\<close>

lemma area_fold:
  "k \<le> length rs \<Longrightarrow>
   foldl (\<lambda>area i.
            let p1 = map finCoord rs ! i;
                p2 = map finCoord rs ! ((i + 1) mod length rs);
                p1_rad = (fst p1 * Fin pi / Fin 180, snd p1 * Fin pi / Fin 180);
                p2_rad = (fst p2 * Fin pi / Fin 180, snd p2 * Fin pi / Fin 180)
            in area + (fst p2_rad - fst p1_rad) *
                      (Fin 2 + Math_sin (snd p1_rad) + Math_sin (snd p2_rad)))
      (Fin 0) [0..<k] = Fin (\<Sum>i<k. ringTerm rs i)"
proof (induction k)
  case 0
  show ?case by simp
next
  case (Suc k)
  then have k: "k < length rs" by simp
  then have "0 < length rs" by linarith
  then have m: "(k + 1) mod length rs < length rs"
    by (rule mod_less_divisor)
  show ?case
    using Suc k m by (simp add: Let_def finCoord_def ringTerm_def)
qed

lemma area_fin:
  "calculatePolygonArea (map finCoord rs) =
     (if length rs < 3 then Fin 0 else Fin \<bar>ringSum rs * (6371000 * 6371000) / 2\<bar>)"
proof -
  have f: "foldl (\<lambda>area i.
            let p1 = map finCoord rs ! i;
                p2 = map finCoord rs ! ((i + 1) mod length (map finCoord rs));
                p1_rad = (fst p1 * Fin pi / Fin 180, snd p1 * Fin pi / Fin 180);
                p2_rad = (fst p2 * Fin pi / Fin 180, snd p2 * Fin pi / Fin 180)
            in area + (fst p2_rad - fst p1_rad) *
                      (Fin 2 + Math_sin (snd p1_rad) + Math_sin (snd p2_rad)))
      (Fin 0) [0..<length (map finCoord rs)] = Fin (ringSum rs)"
    unfolding ringSum_def length_map [of finCoord rs] by (rule area_fold) simp
  show ?thesis
    unfolding calculatePolygonArea_def f by (simp add: Let_def)
qed


lemma ringTerm_rev:
  assumes "i < length rs"
  shows "ringTerm (rev rs) i =
         - ringTerm rs (if i = length rs - 1 then length rs - 1 else length rs - 2 - i)"
proof (cases "i = length rs - 1")
  case True
  have n: "0 < length rs" using assms by linarith
  have "i + 1 = length rs"
    using True n by linarith
  then have a: "(i + 1) mod length rs = 0"
    by simp
  have b: "rev rs ! i = rs ! 0" "rev rs ! 0 = rs ! (length rs - 1)"
    using True n by (simp_all add: rev_nth)
  show ?thesis
    using True n unfolding ringTerm_def length_rev a b
    by (simp add: a algebra_simps)
next
  case False
  then have lt: "i + 1 < length rs" using assms by linarith
  define k where "k = length rs - 2 - i"
  have e1: "length rs - Suc i = Suc k" and e2: "(k + 1) mod length rs = Suc k"
    and e3: "(i + 1) mod length rs = i + 1" and e4: "length rs - Suc (i + 1) = k"
    using lt by (simp_all add: k_def)
  have b: "rev rs ! i = rs ! Suc k" "rev rs ! (i + 1) = rs ! k"
    using lt assms by (simp_all add: rev_nth e1 e4 del: One_nat_def)
  have "ringTerm (rev rs) i =
          (fst (rs ! k) * pi / 180 - fst (rs ! Suc k) * pi / 180) *
          (2 + sin (snd (rs ! Suc k) * pi / 180) + sin (snd (rs ! k) * pi / 180))"
    unfolding ringTerm_def length_rev e3 b ..
  moreover have "ringTerm rs k =
          (fst (rs ! Suc k) * pi / 180 - fst (rs ! k) * pi / 180) *
          (2 + sin (snd (rs ! k) * pi / 180) + sin (snd (rs ! Suc k) * pi / 180))"
    unfolding ringTerm_def e2 ..
  ultimately have "ringTerm (rev rs) i = - ringTerm rs k"
    by (simp add: algebra_simps)
  then show ?thesis
    using False by (simp add: k_def)
qed

lemma ringSum_rev: "ringSum (rev rs) = - ringSum rs"
proof -
  define sg where "sg = (\<lambda>i. if i = length rs - 1 then length rs - 1 else length rs - 2 - i)"
  have "ringSum (rev rs) = (\<Sum>i<length rs. - ringTerm rs (sg i))"
    unfolding ringSum_def length_rev sg_def
    by (rule sum.cong) (simp_all add: ringTerm_rev)
  also have "\<dots> = - (\<Sum>i<length rs. ringTerm rs (sg i))"
    by (simp add: sum_negf)
  also have "(\<Sum>i<length rs. ringTerm rs (sg i)) = (\<Sum>j<length rs. ringTerm rs j)"
    by (rule sum.reindex_bij_witness [where i = sg and j = sg]) (auto simp: sg_def)
  finally show ?thesis
    unfolding ringSum_def .
qed

text \<open>
  In exact arithmetic the area of a ring of finite coordinates is at least 0 and the
  reversed ring (the opposite winding) has the same area; fewer than three coordinates
  have the area 0. Under binary64 arithmetic the reversed ring can have another area
  (section \<^emph>\<open>GeodesicMath in binary64: the area\<close>).
\<close>

lemma area_exact_winding:
  "Fin 0 \<le> calculatePolygonArea (map finCoord ring) \<and>
   numEq (calculatePolygonArea (map finCoord (rev ring))) (calculatePolygonArea (map finCoord ring)) \<and>
   (length coordinates < 3 \<longrightarrow> calculatePolygonArea coordinates = Fin 0)"
proof -
  have "calculatePolygonArea (map finCoord (rev ring)) = calculatePolygonArea (map finCoord ring)"
    unfolding area_fin ringSum_rev by simp
  moreover have "calculatePolygonArea (map finCoord ring) \<noteq> NaN"
    unfolding area_fin by simp
  moreover have "Fin 0 \<le> calculatePolygonArea (map finCoord ring)"
    unfolding area_fin by simp
  ultimately show ?thesis
    by (simp add: numEq_def calculatePolygonArea_def)
qed

section \<open>VolumeEngine: a missing bounding box\<close>

lemma NaN_compare [simp]: "\<not> (NaN < x)" "\<not> (x < NaN)" "\<not> (NaN \<le> x)" "\<not> (x \<le> NaN)"
  by (cases x; simp add: less_jsnum_def less_eq_jsnum_def)+

lemma isPointInPolygon_NaN: "isPointInPolygon (x, NaN) vs = False"
proof -
  have "foldl (\<lambda>inside i. inside) b is = b" for b :: bool and "is" :: "nat list"
    by (induction "is") simp_all
  then show ?thesis
    by (simp add: isPointInPolygon_def Let_def)
qed

lemma missing_bbox_center:
  assumes "0 < g"
  shows "PosInf + (NegInf - PosInf) / Fin g * Fin (real i + 1 / 2) = NaN"
  using assms
  by (simp add: plus_jsnum_def minus_jsnum_def divide_jsnum_def times_jsnum_def)

lemma gridCell_missing_bbox:
  assumes "featureBbox polygon = None" "0 < g"
  shows "gridCell polygon dem g plane st ij = st"
  unfolding gridCell_def gridBounds_def assms(1)
  by (simp add: Let_def missing_bbox_center [OF assms(2)] isPointInPolygon_NaN)

lemma gridLoop_missing_bbox:
  assumes "featureBbox polygon = None"
  shows "gridLoop polygon dem g plane st = st"
proof (cases "0 < g")
  case True
  have "foldl (\<lambda>st j. st) s js = s" for s :: GridState and js :: "nat list"
    by (induction js) simp_all
  then show ?thesis
    unfolding gridLoop_def by (simp add: gridCell_missing_bbox [OF assms True])
next
  case False
  then have "gridIndices g = []"
    by (simp add: gridIndices_def)
  then show ?thesis
    by (simp add: gridLoop_def)
qed

lemma missing_bbox_volume:
  assumes "featureBbox polygon = None"
    and "getVolumeFromDem polygon dem method fixedElevation gridSize = Some r"
  shows "cut r = Fin 0 \<and> fill r = Fin 0 \<and> net r = Fin 0"
  using assms(2)
  unfolding getVolumeFromDem_def volumeRun_def Let_def gridLoop_missing_bbox [OF assms(1)]
  by (auto split: if_splits option.splits)

section \<open>VolumeEngine: cut and fill\<close>




























lemma squarePolygon_perimeter:
  "length (perimeterPoints (outerRing squarePolygon) flatDem) = 5"
  by (simp add: perimeterPoints_def squarePolygon_def flatDem_vertex)



section \<open>VolumeEngine: the grid of a feature without bounding box\<close>

lemma square_inside:
  "isPointInPolygon (Fin (1 / 2), Fin (1 / 2)) (outerRing squarePolygon)"
proof -
  have idx: "[0..<5] = [0, 1, 2, 3, 4]"
    by (simp add: upt_rec)
  show ?thesis
    by (simp add: isPointInPolygon_def squarePolygon_def idx Let_def)
qed

lemma square_width: "\<exists>w > 0. haversineDistance (Fin (1 / 5), Fin (1 / 2)) (Fin (4 / 5), Fin (1 / 2)) = Fin w"
proof -
  have "0 < sin (pi / 600)"
    by (rule sin_gt_zero) (use pi_gt_zero in simp_all)
  moreover have "0 < cos (pi / 360)"
    by (rule cos_gt_zero_pi) (use pi_gt_zero in simp_all)
  ultimately have "0 < havA (1 / 5) (1 / 2) (4 / 5) (1 / 2)"
    by (simp add: havA_def)
  from haversine_pos [OF this] show ?thesis by blast
qed

lemma square_height:
  "haversineDistance (Fin (1 / 5), Fin (1 / 5)) (Fin (1 / 5), Fin (4 / 5)) = Fin (6371 * pi / 300)"
  by (simp add: haversine_meridian)

lemma square_cell:
  assumes w: "haversineDistance (Fin (1 / 5), Fin (1 / 2)) (Fin (4 / 5), Fin (1 / 2)) = Fin w"
  shows "gridCell squarePolygon flatDem 1 (Flat (Fin 40)) st (0, 0) =
     st\<lparr>sampled := sampled st @ [(Fin (1 / 2), Fin (1 / 2))],
        fillVolume := fillVolume st + Fin (10 * (w * 1000 * (6371 * pi / 300 * 1000)))\<rparr>"
proof -
  have b: "gridBounds squarePolygon = (Fin (1 / 5), Fin (1 / 5), Fin (4 / 5), Fin (4 / 5))"
    by (simp add: gridBounds_def squarePolygon_def)
  have p: "applyProj flatDem c = c" for c
    by (simp add: applyProj_def flatDem_def)
  have s: "getElevationFromDem (Fin (1 / 2)) (Fin (1 / 2)) flatDem = JNum (Fin 50)"
    by (simp add: flatDem_inside)
  show ?thesis
    unfolding gridCell_def b
    by (simp add: Let_def p w square_height square_inside s)
qed


lemma squareRingOnly_simps:
  "featureBbox squareRingOnly = None" "outerRing squareRingOnly = outerRing squarePolygon"
  by (simp_all add: squareRingOnly_def)

lemma square_volume_with_bbox:
  "case getVolumeFromDem squarePolygon flatDem FixedElevation (Some (Fin 40)) (Some 1) of
     None \<Rightarrow> False
   | Some r \<Rightarrow> Fin 0 < fill r \<and> cut r = Fin 0"
proof -
  obtain w where w: "haversineDistance (Fin (1 / 5), Fin (1 / 2)) (Fin (4 / 5), Fin (1 / 2)) = Fin w"
    and pos: "0 < w"
    using square_width by blast
  have g: "gridIndices 1 = [0]"
    by (simp add: gridIndices_def)
  have "0 < 10 * (w * 1000 * (6371 * pi / 300 * 1000))"
    using pos by simp
  then show ?thesis
    unfolding getVolumeFromDem_def volumeRun_def Let_def
    by (simp add: squarePolygon_perimeter fitBasePlane_def gridLoop_def g square_cell [OF w])
qed

text \<open>
  C2 fails. For the square without a bounding box the bounds of the grid are the defaults
  \<open>(Infinity, Infinity, -Infinity, -Infinity)\<close>, not the bounds of the ring
  \<open>(0.2, 0.2, 0.8, 0.8)\<close>. Every cell centre is then NaN, no cell is inside the polygon,
  and the result is \<open>cut = fill = net = 0\<close>, on a raster that lies 10 m above the base
  plane everywhere. With the bounding box supplied, the same call has \<open>fill > 0\<close>.
\<close>

theorem missing_bbox_leaves_grid_empty:
  "featureBbox squareRingOnly = None \<and>
   ringBbox (outerRing squareRingOnly) = (Fin (1 / 5), Fin (1 / 5), Fin (4 / 5), Fin (4 / 5)) \<and>
   gridBounds squareRingOnly = (PosInf, PosInf, NegInf, NegInf) \<and>
   getVolumeFromDem squareRingOnly flatDem FixedElevation (Some (Fin 40)) (Some 1) =
     Some \<lparr>cut = Fin 0, fill = Fin 0, net = Fin 0,
           basePlane = Flat (Fin 40), resultMethod = FixedElevation\<rparr> \<and>
   (case getVolumeFromDem squarePolygon flatDem FixedElevation (Some (Fin 40)) (Some 1) of
      None \<Rightarrow> False
    | Some r \<Rightarrow> Fin 0 < fill r \<and> cut r = Fin 0)"
proof -
  have "ringBbox (outerRing squareRingOnly) =
          (Fin (1 / 5), Fin (1 / 5), Fin (4 / 5), Fin (4 / 5))"
    by (simp add: ringBbox_def squareRingOnly_simps squarePolygon_def)
  moreover have "gridBounds squareRingOnly = (PosInf, PosInf, NegInf, NegInf)"
    by (simp add: gridBounds_def squareRingOnly_simps)
  moreover have "getVolumeFromDem squareRingOnly flatDem FixedElevation (Some (Fin 40)) (Some 1) =
     Some \<lparr>cut = Fin 0, fill = Fin 0, net = Fin 0,
           basePlane = Flat (Fin 40), resultMethod = FixedElevation\<rparr>"
    unfolding getVolumeFromDem_def volumeRun_def Let_def
      gridLoop_missing_bbox [OF squareRingOnly_simps(1)]
    by (simp add: squareRingOnly_simps squarePolygon_perimeter fitBasePlane_def)
  ultimately show ?thesis
    using square_volume_with_bbox squareRingOnly_simps(1) by blast
qed

section \<open>VolumeEngine: a raster with NaN cells\<close>





section \<open>Rounding to binary64\<close>

text \<open>
  How a rounding is computed: \<open>binary64 x\<close> is \<open>m / 2\<^sup>n\<close> when \<open>x * 2\<^sup>n\<close> lies between
  \<open>2\<^sup>5\<^sup>2\<close> and \<open>2\<^sup>5\<^sup>3\<close> and is nearer than \<open>1 / 2\<close> to the integer \<open>m\<close>; a tie goes to
  the even integer.
\<close>

lemma roundEven_eqI:
  assumes "\<bar>x - of_int m\<bar> < 1 / 2"
  shows "roundEven x = m"
proof -
  consider "of_int m \<le> x" | "x < of_int m" by linarith
  then show ?thesis
  proof cases
    case 1
    then have "\<lfloor>x\<rfloor> = m"
      using assms by (intro floor_unique) linarith+
    then show ?thesis
      using assms 1 by (simp add: roundEven_def Let_def)
  next
    case 2
    have m1: "real_of_int (m - 1) = real_of_int m - 1"
      by simp
    have "real_of_int (m - 1) \<le> x" "x < real_of_int (m - 1) + 1"
      using assms 2 m1 by linarith+
    then have f: "\<lfloor>x\<rfloor> = m - 1"
      by (rule floor_unique)
    have "1 / 2 < x - of_int (m - 1)"
      using assms 2 m1 by linarith
    then show ?thesis
      unfolding roundEven_def Let_def f by simp
  qed
qed

lemma expo_eqI:
  assumes "2 powi e \<le> \<bar>x\<bar>" "\<bar>x\<bar> < 2 powi (e + 1)" and "- 1022 \<le> e"
  shows "expo x = e"
proof -
  have pos: "0 < \<bar>x\<bar>"
    using assms(1) by (smt (verit) zero_less_power_int)
  have "real_of_int e \<le> log 2 \<bar>x\<bar>"
    using assms(1) pos by (simp add: le_log_iff powr_real_of_int')
  moreover have "log 2 \<bar>x\<bar> < real_of_int (e + 1)"
  proof -
    have "(2::real) powr real_of_int (e + 1) = 2 powi (e + 1)"
      by (rule powr_real_of_int') simp_all
    then show ?thesis
      using assms(2) pos by (subst log_less_iff) simp_all
  qed
  ultimately have "\<lfloor>log 2 \<bar>x\<bar>\<rfloor> = e"
    by (intro floor_unique) simp_all
  then show ?thesis
    unfolding expo_def using assms(3) by simp
qed

lemma binary64_eqI:
  assumes "2 ^ 52 \<le> \<bar>x\<bar> * 2 powi k" "\<bar>x\<bar> * 2 powi k < 2 ^ 53"
    and "\<bar>x * 2 powi k - of_int m\<bar> < 1 / 2" and "k \<le> 1074"
  shows "binary64 x = of_int m * 2 powi (- k)"
proof -
  have k: "(2::real) powi k > 0" by simp
  have "2 powi (52 - k) \<le> \<bar>x\<bar>"
    using assms(1) by (simp add: power_int_diff field_simps)
  moreover have "\<bar>x\<bar> < 2 powi (52 - k + 1)"
    using assms(2) by (simp add: power_int_diff power_int_add field_simps)
  ultimately have e: "expo x = 52 - k"
    using assms(4) by (intro expo_eqI) simp_all
  have nz: "x \<noteq> 0"
    using assms(1) by auto
  show ?thesis
    using nz by (simp add: binary64_def e roundEven_eqI [OF assms(3)])
qed

lemma binary64_small:
  assumes "2 ^ 52 \<le> \<bar>x\<bar> * 2 ^ n" "\<bar>x\<bar> * 2 ^ n < 2 ^ 53"
    and "\<bar>x * 2 ^ n - of_int m\<bar> < 1 / 2" and "n \<le> 1074"
  shows "binary64 x = of_int m / 2 ^ n"
  using binary64_eqI [of x "int n" m] assms by (simp add: power_int_minus field_simps)

lemma roundEven_tie: "roundEven (of_int f + 1 / 2) = (if even f then f else f + 1)"
proof -
  have "\<lfloor>real_of_int f + 1 / 2\<rfloor> = f"
    by (rule floor_unique) simp_all
  then show ?thesis
    by (simp add: roundEven_def Let_def)
qed

lemma binary64_tie:
  assumes "2 ^ 52 \<le> \<bar>x\<bar> * 2 ^ n" "\<bar>x\<bar> * 2 ^ n < 2 ^ 53"
    and "x * 2 ^ n = of_int f + 1 / 2" and "n \<le> 1074"
  shows "binary64 x = of_int (if even f then f else f + 1) / 2 ^ n"
proof -
  have k: "(2::real) powi (int n) = 2 ^ n"
    by simp
  have "2 powi (52 - int n) \<le> \<bar>x\<bar>"
    using assms(1) by (simp add: power_int_diff field_simps)
  moreover have "\<bar>x\<bar> < 2 powi (52 - int n + 1)"
    using assms(2) by (simp add: power_int_diff power_int_add field_simps)
  ultimately have e: "expo x = 52 - int n"
    using assms(4) by (intro expo_eqI) simp_all
  have nz: "x \<noteq> 0"
    using assms(1) by auto
  have "binary64 x = of_int (roundEven (x * 2 ^ n)) * 2 powi (- int n)"
    using nz by (simp add: binary64_def e)
  then show ?thesis
    unfolding assms(3) roundEven_tie by (simp add: power_int_minus field_simps)
qed

lemma binary64_0 [simp]: "binary64 0 = 0"
  by (simp add: binary64_def)

lemma binary64_1 [simp]: "binary64 1 = 1"
  using binary64_small [of 1 52 "2 ^ 52"] by simp

lemma roundEven_minus: "roundEven (- y) = - roundEven y"
proof -
  have fl: "of_int \<lfloor>y\<rfloor> \<le> y" "y < of_int \<lfloor>y\<rfloor> + 1"
    by linarith+
  have c: "real_of_int (- \<lfloor>y\<rfloor>) = - real_of_int \<lfloor>y\<rfloor>"
    "real_of_int (\<lfloor>y\<rfloor> + 1) = real_of_int \<lfloor>y\<rfloor> + 1"
    "real_of_int (- (\<lfloor>y\<rfloor> + 1)) = - real_of_int \<lfloor>y\<rfloor> - 1"
    "real_of_int (- \<lfloor>y\<rfloor> - 1) = - real_of_int \<lfloor>y\<rfloor> - 1"
    by simp_all
  consider "y - of_int \<lfloor>y\<rfloor> < 1 / 2" | "1 / 2 < y - of_int \<lfloor>y\<rfloor>" | "y - of_int \<lfloor>y\<rfloor> = 1 / 2"
    by linarith
  then show ?thesis
  proof cases
    case 1
    then have "\<bar>y - of_int \<lfloor>y\<rfloor>\<bar> < 1 / 2"
      using fl by linarith
    then have a: "roundEven y = \<lfloor>y\<rfloor>"
      by (rule roundEven_eqI)
    from 1 fl c have "\<bar>- y - of_int (- \<lfloor>y\<rfloor>)\<bar> < 1 / 2"
      by linarith
    then have "roundEven (- y) = - \<lfloor>y\<rfloor>"
      by (rule roundEven_eqI)
    with a show ?thesis by simp
  next
    case 2
    then have "\<bar>y - of_int (\<lfloor>y\<rfloor> + 1)\<bar> < 1 / 2"
      using fl c by linarith
    then have a: "roundEven y = \<lfloor>y\<rfloor> + 1"
      by (rule roundEven_eqI)
    from 2 fl c have "\<bar>- y - of_int (- (\<lfloor>y\<rfloor> + 1))\<bar> < 1 / 2"
      by linarith
    then have "roundEven (- y) = - (\<lfloor>y\<rfloor> + 1)"
      by (rule roundEven_eqI)
    with a show ?thesis by simp
  next
    case 3
    have "real_of_int (- \<lfloor>y\<rfloor> - 1) \<le> - y" "- y < real_of_int (- \<lfloor>y\<rfloor> - 1) + 1"
      using 3 c by linarith+
    then have f: "\<lfloor>- y\<rfloor> = - \<lfloor>y\<rfloor> - 1"
      by (rule floor_unique)
    have "- y - of_int (- \<lfloor>y\<rfloor> - 1) = 1 / 2"
      using 3 c by linarith
    then show ?thesis
      using 3 unfolding roundEven_def Let_def f by auto
  qed
qed

lemma binary64_minus: "binary64 (- x) = - binary64 x"
  using roundEven_minus [of "x * 2 powi (52 - expo x)"]
  by (simp add: binary64_def expo_def)

lemma binary64_near:
  assumes "2 ^ 52 < m" "m < 2 ^ 53" and "\<bar>y * 2 ^ n - of_int m\<bar> < 1 / 2" and "n \<le> 1074"
  shows "binary64 y = of_int m / 2 ^ n"
proof (rule binary64_small)
  define z where "z = y * 2 ^ n"
  have "(4503599627370497::int) \<le> m" "m \<le> 9007199254740991"
    using assms(1,2) by simp_all
  then have "real_of_int 4503599627370497 \<le> of_int m" "real_of_int m \<le> of_int 9007199254740991"
    by (simp_all only: of_int_le_iff)
  then have m: "4503599627370497 \<le> real_of_int m" "real_of_int m \<le> 9007199254740991"
    by simp_all
  have z: "4503599627370496 \<le> z" "z < 9007199254740992"
    using assms(3) m unfolding z_def by linarith+
  then have "0 < y * 2 ^ n"
    unfolding z_def by linarith
  then have "0 < y"
    by (simp add: zero_less_mult_iff)
  then have a: "\<bar>y\<bar> = y"
    by simp
  show "2 ^ 52 \<le> \<bar>y\<bar> * 2 ^ n"
    unfolding a using z unfolding z_def by simp
  show "\<bar>y\<bar> * 2 ^ n < 2 ^ 53"
    unfolding a using z unfolding z_def by simp
  show "\<bar>y * 2 ^ n - of_int m\<bar> < 1 / 2"
    by (rule assms(3))
  show "n \<le> 1074"
    by (rule assms(4))
qed

text \<open>
  The rounding of a function value that is known up to an error: \<open>p\<close> approximates \<open>s\<close>
  with an error of at most \<open>e\<close> units of the last place, and \<open>p\<close> is nearer than
  \<open>1 / 2 - e\<close> to \<open>m\<close>. The approximations are the Taylor polynomials of the sine and the
  cosine with the Lagrange remainder, and the partial sums of the alternating series of
  the arctangent; the square root is bounded by squaring.
\<close>

lemma binary64_approx:
  assumes "\<bar>s - p\<bar> \<le> e / 2 ^ n" and "\<bar>p * 2 ^ n - of_int m\<bar> + e < 1 / 2"
    and "2 ^ 52 < m" "m < 2 ^ 53" "n \<le> 1074"
  shows "binary64 s = of_int m / 2 ^ n"
proof -
  have "\<bar>s * 2 ^ n - p * 2 ^ n\<bar> = \<bar>s - p\<bar> * 2 ^ n"
    by (simp add: abs_mult left_diff_distrib [symmetric])
  also have "\<dots> \<le> e / 2 ^ n * 2 ^ n"
    using assms(1) by (intro mult_right_mono) simp_all
  finally have "\<bar>s * 2 ^ n - p * 2 ^ n\<bar> \<le> e"
    by simp
  with assms(2) have "\<bar>s * 2 ^ n - of_int m\<bar> < 1 / 2"
    by linarith
  with assms(3,4) show ?thesis
    using assms(5) by (rule binary64_near)
qed

lemma sum_lessThan_9:
  fixes f :: "nat \<Rightarrow> real"
  shows "(\<Sum>m<9. f m) = f 0 + f 1 + f 2 + f 3 + f 4 + f 5 + f 6 + f 7 + f 8"
  by (simp add: eval_nat_numeral)

lemma sin_poly7:
  fixes x :: real
  shows "\<bar>sin x - (x - x ^ 3 / 6 + x ^ 5 / 120 - x ^ 7 / 5040)\<bar> \<le> \<bar>x\<bar> ^ 9 / 362880"
proof -
  have c: "sin_coeff 0 = 0" "sin_coeff 1 = 1" "sin_coeff 2 = 0" "sin_coeff 3 = - 1 / 6"
    "sin_coeff 4 = 0" "sin_coeff 5 = 1 / 120" "sin_coeff 6 = 0" "sin_coeff 7 = - 1 / 5040"
    "sin_coeff 8 = 0"
    by (simp_all add: sin_coeff_def fact_numeral)
  have e1: "(\<Sum>m<9. sin_coeff m * x ^ m) = x - x ^ 3 / 6 + x ^ 5 / 120 - x ^ 7 / 5040"
    unfolding sum_lessThan_9 c by simp
  have f: "inverse (fact 9 :: real) = 1 / 362880"
    by (simp add: eval_nat_numeral)
  have e2: "inverse (fact 9) * \<bar>x\<bar> ^ 9 = \<bar>x\<bar> ^ 9 / 362880"
    unfolding f by simp
  show ?thesis
    using Maclaurin_sin_bound [of x 9] unfolding e1 e2 .
qed

lemma sum_lessThan_12:
  fixes f :: "nat \<Rightarrow> real"
  shows "(\<Sum>m<12. f m) =
           f 0 + f 1 + f 2 + f 3 + f 4 + f 5 + f 6 + f 7 + f 8 + f 9 + f 10 + f 11"
  by (simp add: eval_nat_numeral)

lemma cos_poly10:
  fixes x :: real
  shows "\<bar>cos x - (1 - x ^ 2 / 2 + x ^ 4 / 24 - x ^ 6 / 720 + x ^ 8 / 40320 - x ^ 10 / 3628800)\<bar>
           \<le> \<bar>x\<bar> ^ 12 / 479001600"
proof -
  have c: "cos_coeff 0 = 1" "cos_coeff 1 = 0" "cos_coeff 2 = - 1 / 2" "cos_coeff 3 = 0"
    "cos_coeff 4 = 1 / 24" "cos_coeff 5 = 0" "cos_coeff 6 = - 1 / 720" "cos_coeff 7 = 0"
    "cos_coeff 8 = 1 / 40320" "cos_coeff 9 = 0" "cos_coeff 10 = - 1 / 3628800"
    "cos_coeff 11 = 0"
    by (simp_all add: cos_coeff_def fact_numeral)
  have e1: "(\<Sum>m<12. cos_coeff m * x ^ m) =
              1 - x ^ 2 / 2 + x ^ 4 / 24 - x ^ 6 / 720 + x ^ 8 / 40320 - x ^ 10 / 3628800"
    unfolding sum_lessThan_12 c by simp
  have f: "(fact 12 :: real) = 479001600"
    by (simp add: eval_nat_numeral)
  obtain t where t: "cos x = (\<Sum>m<12. cos_coeff m * x ^ m) +
                       (cos (t + 1 / 2 * real 12 * pi) / fact 12) * x ^ 12"
    using Maclaurin_cos_expansion [of x 12] by blast
  define c where "c = cos (t + 1 / 2 * real 12 * pi)"
  have c: "\<bar>c\<bar> \<le> 1"
    unfolding c_def by simp
  have "cos x - (\<Sum>m<12. cos_coeff m * x ^ m) = c * (x ^ 12 / 479001600)"
    using t unfolding f c_def [symmetric] by simp
  then have "\<bar>cos x - (\<Sum>m<12. cos_coeff m * x ^ m)\<bar> = \<bar>c\<bar> * \<bar>x ^ 12 / 479001600\<bar>"
    by (simp only: abs_mult)
  also have "\<bar>x ^ 12 / 479001600\<bar> = \<bar>x\<bar> ^ 12 / 479001600"
    by (simp add: power_abs)
  also have "\<bar>c\<bar> * (\<bar>x\<bar> ^ 12 / 479001600) \<le> 1 * (\<bar>x\<bar> ^ 12 / 479001600)"
    using c by (intro mult_right_mono) simp_all
  finally show ?thesis
    unfolding e1 by simp
qed

lemma sum_lessThan_5:
  fixes f :: "nat \<Rightarrow> real"
  shows "(\<Sum>m<5. f m) = f 0 + f 1 + f 2 + f 3 + f 4"
  by (simp add: eval_nat_numeral)

lemma sum_lessThan_6:
  fixes f :: "nat \<Rightarrow> real"
  shows "(\<Sum>m<6. f m) = f 0 + f 1 + f 2 + f 3 + f 4 + f 5"
  by (simp add: eval_nat_numeral)

lemma arctan_poly9:
  fixes x :: real
  assumes "0 \<le> x" "x \<le> 1"
  shows "\<bar>arctan x - (x - x ^ 3 / 3 + x ^ 5 / 5 - x ^ 7 / 7 + x ^ 9 / 9)\<bar> \<le> x ^ 11 / 11"
proof -
  define a where "a = (\<lambda>n. 1 / real (n * 2 + 1) * x ^ (n * 2 + 1))"
  have ax: "\<bar>x\<bar> \<le> 1"
    using assms by simp
  have zero: "a \<longlonglongrightarrow> 0"
    unfolding a_def using ax by (rule zeroseq_arctan_series)
  have pos: "0 \<le> a n" for n
    unfolding a_def using assms by simp
  have mono: "a (Suc n) \<le> a n" for n
  proof -
    have "x ^ (Suc n * 2 + 1) \<le> x ^ (n * 2 + 1)"
      using assms by (intro power_decreasing) simp_all
    moreover have "1 / real (Suc n * 2 + 1) \<le> 1 / real (n * 2 + 1)"
      by (intro divide_left_mono) simp_all
    ultimately show ?thesis
      unfolding a_def using assms by (intro mult_mono) simp_all
  qed
  have s: "arctan x = (\<Sum>k. (- 1) ^ k * a k)"
    unfolding a_def using ax by (rule arctan_series)
  have lo: "(\<Sum>i<2 * 3. (- 1) ^ i * a i) \<le> arctan x"
    unfolding s using zero pos mono by (rule summable_Leibniz'(2))
  have hi: "arctan x \<le> (\<Sum>i<2 * 2 + 1. (- 1) ^ i * a i)"
    unfolding s using zero pos mono by (rule summable_Leibniz'(4))
  have "(\<Sum>i<2 * 3. (- 1) ^ i * a i) =
          x - x ^ 3 / 3 + x ^ 5 / 5 - x ^ 7 / 7 + x ^ 9 / 9 - x ^ 11 / 11"
    unfolding sum_lessThan_6 by (simp add: a_def eval_nat_numeral)
  moreover have "(\<Sum>i<2 * 2 + 1. (- 1) ^ i * a i) =
          x - x ^ 3 / 3 + x ^ 5 / 5 - x ^ 7 / 7 + x ^ 9 / 9"
    unfolding sum_lessThan_5 by (simp add: a_def eval_nat_numeral)
  moreover have "0 \<le> x ^ 11 / 11"
    using assms by simp
  ultimately show ?thesis
    using lo hi by linarith
qed

lemma binary64_sqrt:
  assumes "((of_int m - 1 / 2) / 2 ^ n)\<^sup>2 < q" "q < ((of_int m + 1 / 2) / 2 ^ n)\<^sup>2"
    and "2 ^ 52 < m" "m < 2 ^ 53" "n \<le> 1074"
  shows "binary64 (sqrt q) = of_int m / 2 ^ n"
proof -
  have "(4503599627370497::int) \<le> m"
    using assms(3) by simp
  then have "real_of_int 4503599627370497 \<le> of_int m"
    by (simp only: of_int_le_iff)
  then have m: "1 \<le> real_of_int m"
    by simp
  have q: "0 \<le> q"
    using assms(1) by (smt (verit) zero_le_power2)
  have "(of_int m - 1 / 2) / 2 ^ n < sqrt q"
    using assms(1) by (rule real_less_rsqrt)
  moreover have "sqrt q < (of_int m + 1 / 2) / 2 ^ n"
    using assms(2) m by (intro real_less_lsqrt) simp_all
  ultimately have "of_int m - 1 / 2 < sqrt q * 2 ^ n" "sqrt q * 2 ^ n < of_int m + 1 / 2"
    by (simp_all add: pos_divide_less_eq pos_less_divide_eq)
  then have "\<bar>sqrt q * 2 ^ n - of_int m\<bar> < 1 / 2"
    by linarith
  with assms(3,4) show ?thesis
    using assms(5) by (rule binary64_near)
qed

text \<open>
  The error of a rounding, and with it a bound on the result: an operation on numbers
  that are small enough does not overflow.
\<close>

lemma roundEven_error: "\<bar>of_int (roundEven y) - y\<bar> \<le> 1 / 2"
proof -
  have fl: "of_int \<lfloor>y\<rfloor> \<le> y" "y < of_int \<lfloor>y\<rfloor> + 1"
    by linarith+
  have c: "real_of_int (\<lfloor>y\<rfloor> + 1) = real_of_int \<lfloor>y\<rfloor> + 1"
    by simp
  consider "y - of_int \<lfloor>y\<rfloor> < 1 / 2" | "1 / 2 < y - of_int \<lfloor>y\<rfloor>" | "y - of_int \<lfloor>y\<rfloor> = 1 / 2"
    by linarith
  then show ?thesis
  proof cases
    case 1
    then have "roundEven y = \<lfloor>y\<rfloor>"
      by (simp add: roundEven_def Let_def)
    then show ?thesis
      using 1 fl by simp
  next
    case 2
    then have "roundEven y = \<lfloor>y\<rfloor> + 1"
      by (simp add: roundEven_def Let_def)
    then show ?thesis
      using 2 fl c by simp
  next
    case 3
    then have "roundEven y = \<lfloor>y\<rfloor> \<or> roundEven y = \<lfloor>y\<rfloor> + 1"
      by (simp add: roundEven_def Let_def)
    then show ?thesis
      using 3 fl c by auto
  qed
qed

lemma binary64_error: "\<bar>binary64 x - x\<bar> \<le> \<bar>x\<bar> + 1"
proof (cases "x = 0")
  case True
  then show ?thesis by simp
next
  case False
  define s :: real where "s = 2 powi (52 - expo x)"
  have s: "0 < s"
    unfolding s_def by simp
  have inv: "2 powi (expo x - 52) = 1 / s"
    unfolding s_def by (simp add: power_int_diff)
  have b: "binary64 x = of_int (roundEven (x * s)) / s"
    using False unfolding binary64_def s_def [symmetric] inv by simp
  have "binary64 x - x = (of_int (roundEven (x * s)) - x * s) / s"
    unfolding b using s by (simp add: field_simps)
  then have "\<bar>binary64 x - x\<bar> = \<bar>of_int (roundEven (x * s)) - x * s\<bar> / s"
    using s by (simp add: abs_divide)
  also have "\<dots> \<le> (1 / 2) / s"
    using roundEven_error [of "x * s"] s by (intro divide_right_mono) simp_all
  also have "\<dots> = 2 powi (expo x - 53)"
    unfolding s_def by (simp add: power_int_diff)
  finally have e: "\<bar>binary64 x - x\<bar> \<le> 2 powi (expo x - 53)" .
  have "2 powi (expo x - 53) \<le> \<bar>x\<bar> + 1"
  proof (cases "- 1022 \<le> \<lfloor>log 2 \<bar>x\<bar>\<rfloor>")
    case True
    then have ex: "expo x = \<lfloor>log 2 \<bar>x\<bar>\<rfloor>"
      by (simp add: expo_def)
    have "(2::real) powi (expo x - 53) \<le> 2 powi (expo x)"
      by (intro power_int_increasing) simp_all
    also have "\<dots> = 2 powr (real_of_int \<lfloor>log 2 \<bar>x\<bar>\<rfloor>)"
      unfolding ex by (simp add: powr_real_of_int')
    also have "\<dots> \<le> 2 powr (log 2 \<bar>x\<bar>)"
      by (intro powr_mono) simp_all
    also have "\<dots> = \<bar>x\<bar>"
      using False by simp
    finally show ?thesis by simp
  next
    case False
    then have ex: "expo x = - 1022"
      by (simp add: expo_def)
    have "(2::real) powi (expo x - 53) \<le> 2 powi 0"
      unfolding ex by (intro power_int_increasing) simp_all
    then show ?thesis by simp
  qed
  with e show ?thesis by linarith
qed

lemma rnd_bounded:
  assumes "\<bar>x\<bar> \<le> b" "2 * b + 1 < 2 ^ 1024"
  shows "\<exists>v. rnd (Fin x) = Fin v \<and> \<bar>v\<bar> \<le> 2 * b + 1"
proof -
  have "\<bar>binary64 x\<bar> \<le> 2 * b + 1"
    using binary64_error [of x] assms(1) by linarith
  then show ?thesis
    using assms(2) by (simp add: overflow_def)
qed

lemma overflow_small [simp]: "\<bar>y\<bar> < 2 ^ 1024 \<Longrightarrow> overflow y = Fin y"
  by (simp add: overflow_def)

section \<open>The roundings of two computations\<close>

text \<open>
  Every lemma of this section is one operation of \<open>calculatePolygonArea64\<close> on the ring
  \<open>(0, 0), (1, 0), (2, 1), (0, 0)\<close> or on its reverse, or of \<open>haversineDistance64\<close> on the
  points \<open>(0, 3)\<close> and \<open>(1, 5)\<close> in one of the two orders: the exact result of the operation
  and the binary64 number it is rounded to.
\<close>

lemma round_1: "binary64 (40589641000000) = 40589641000000"
  using binary64_small [of "40589641000000" 7 5195474048000000] by simp

lemma round_2: "binary64 (884279719003555 / 281474976710656) = 884279719003555 / 281474976710656"
  using binary64_small [of "884279719003555 / 281474976710656" 51 7074237752028440] by simp

lemma round_3: "binary64 (176855943800711 / 10133099161583616) = 5030569068109113 / 288230376151711744"
  using binary64_small [of "176855943800711 / 10133099161583616" 58 5030569068109113] by simp

lemma round_4: "binary64 (5030569068109113 / 288230376151711744) = 5030569068109113 / 288230376151711744"
  using binary64_small [of "5030569068109113 / 288230376151711744" 58 5030569068109113] by simp

lemma round_5: "binary64 (2) = 2"
  using binary64_small [of "2" 51 4503599627370496] by simp

lemma round_6: "binary64 (5030569068109113 / 144115188075855872) = 5030569068109113 / 144115188075855872"
  using binary64_small [of "5030569068109113 / 144115188075855872" 57 5030569068109113] by simp

lemma round_7: "binary64 (884279719003555 / 140737488355328) = 884279719003555 / 140737488355328"
  using binary64_small [of "884279719003555 / 140737488355328" 50 7074237752028440] by simp

lemma round_8: "binary64 (176855943800711 / 5066549580791808) = 5030569068109113 / 144115188075855872"
  using binary64_small [of "176855943800711 / 5066549580791808" 57 5030569068109113] by simp

lemma round_9: "binary64 (290745532987797135 / 144115188075855872) = 2271449476467165 / 1125899906842624"
  using binary64_small [of "290745532987797135 / 144115188075855872" 51 4542898952934330] by simp

lemma round_10: "binary64 (11426683476088358833377981774645 / 324518553658426726783156020576256) = 2537233418051423 / 72057594037927936"
  using binary64_small [of "11426683476088358833377981774645 / 324518553658426726783156020576256" 57 5074466836102846] by simp

lemma round_11: "binary64 (10105035904211959 / 144115188075855872) = 1263129488026495 / 18014398509481984"
  using binary64_tie [of "10105035904211959 / 144115188075855872" 56 5052517952105979] by simp

lemma round_12: "binary64 (2271449476467165 / 1125899906842624) = 2271449476467165 / 1125899906842624"
  using binary64_small [of "2271449476467165 / 1125899906842624" 51 4542898952934330] by simp

lemma round_13: "binary64 (11426683476088358833377981774645 / 162259276829213363391578010288128) = 2537233418051423 / 36028797018963968"
  using binary64_small [of "11426683476088358833377981774645 / 162259276829213363391578010288128" 56 5074466836102846] by simp

lemma round_14: "binary64 (10974441998433 / 36028797018963968) = 10974441998433 / 36028797018963968"
  using binary64_small [of "10974441998433 / 36028797018963968" 64 5618914303197696] by simp

lemma round_15: "binary64 (6960135326433094258640625 / 562949953421312) = 6482131151885813 / 524288"
  using binary64_small [of "6960135326433094258640625 / 562949953421312" 19 6482131151885813] by simp

lemma round_16: "binary64 (6482131151885813 / 1048576) = 6482131151885813 / 1048576"
  using binary64_small [of "6482131151885813 / 1048576" 20 6482131151885813] by simp

lemma round_17: "binary64 (2537233418051423 / 36028797018963968) = 2537233418051423 / 36028797018963968"
  using binary64_small [of "2537233418051423 / 36028797018963968" 56 5074466836102846] by simp

lemma round_18: "binary64 (2537233418051423 / 72057594037927936) = 2537233418051423 / 72057594037927936"
  using binary64_small [of "2537233418051423 / 72057594037927936" 57 5074466836102846] by simp

lemma round_19: "binary64 (43897767993733 / 144115188075855872) = 43897767993733 / 144115188075855872"
  using binary64_small [of "43897767993733 / 144115188075855872" 64 5618914303197824] by simp

lemma round_20: "binary64 (27840541305733011247703125 / 2251799813685248) = 6482131151885961 / 524288"
  using binary64_small [of "27840541305733011247703125 / 2251799813685248" 19 6482131151885961] by simp

lemma round_21: "binary64 (6482131151885961 / 1048576) = 6482131151885961 / 1048576"
  using binary64_small [of "6482131151885961 / 1048576" 20 6482131151885961] by simp

lemma round_22: "binary64 (1) = 1"
  using binary64_small [of "1" 52 4503599627370496] by simp

lemma round_23: "binary64 (2652839157010665 / 281474976710656) = 2652839157010665 / 281474976710656"
  using binary64_small [of "2652839157010665 / 281474976710656" 49 5305678314021330] by simp

lemma round_24: "binary64 (176855943800711 / 3377699720527872) = 7545853602163669 / 144115188075855872"
  using binary64_small [of "176855943800711 / 3377699720527872" 57 7545853602163669] by simp

lemma round_25: "binary64 (4421398595017775 / 281474976710656) = 4421398595017775 / 281474976710656"
  using binary64_small [of "4421398595017775 / 281474976710656" 49 8842797190035550] by simp

lemma round_26: "binary64 (884279719003555 / 10133099161583616) = 6288211335136391 / 72057594037927936"
  using binary64_small [of "884279719003555 / 10133099161583616" 56 6288211335136391] by simp

lemma round_27: "binary64 (6326013910107074410773043622881 / 20769187434139310514121985316880384) = 5618629037679911 / 18446744073709551616"
  using binary64_small [of "6326013910107074410773043622881 / 20769187434139310514121985316880384" 64 5618629037679911] by simp

lemma round_28: "binary64 (5030569068109113 / 576460752303423488) = 5030569068109113 / 576460752303423488"
  using binary64_small [of "5030569068109113 / 576460752303423488" 59 5030569068109113] by simp

lemma round_29: "binary64 (25305982752301026957139842538561 / 332306998946228968225951765070086144) = 2809528471237169 / 36893488147419103232"
  using binary64_small [of "25305982752301026957139842538561 / 332306998946228968225951765070086144" 66 5619056942474338] by simp

lemma round_30: "binary64 (25271301782437644624424301049229 / 332306998946228968225951765070086144) = 2805678110111303 / 36893488147419103232"
  using binary64_small [of "25271301782437644624424301049229 / 332306998946228968225951765070086144" 66 5611356220222606] by simp

lemma round_31: "binary64 (12587568424770429551912641517047 / 166153499473114484112975882535043072) = 5590003315689897 / 73786976294838206464"
  using binary64_small [of "12587568424770429551912641517047 / 166153499473114484112975882535043072" 66 5590003315689897] by simp

lemma round_32: "binary64 (28064519466409541 / 73786976294838206464) = 7016129866602385 / 18446744073709551616"
  using binary64_small [of "28064519466409541 / 73786976294838206464" 64 7016129866602385] by simp

lemma round_33: "binary64 (18439727943842949231 / 18446744073709551616) = 9003773410079565 / 9007199254740992"
  using binary64_small [of "18439727943842949231 / 18446744073709551616" 53 9003773410079565] by simp

lemma round_34: "binary64 (5621551982695353 / 144115188075855872) = 5621551982695353 / 144115188075855872"
  using binary64_small [of "5621551982695353 / 144115188075855872" 57 5621551982695353] by simp

lemma round_35: "binary64 (35814907681752093963 / 144115188075855872) = 8743873945740257 / 35184372088832"
  using binary64_small [of "35814907681752093963 / 144115188075855872" 45 8743873945740257] by simp

lemma round_36: "binary64 (12604842923921720887921621754881 / 166153499473114484112975882535043072) = 2798837367184275 / 36893488147419103232"
  using binary64_small [of "12604842923921720887921621754881 / 166153499473114484112975882535043072" 66 5597674734368550] by simp

lemma round_37: "binary64 (25175136849540860633191766372775 / 332306998946228968225951765070086144) = 2795001657844949 / 36893488147419103232"
  using binary64_small [of "25175136849540860633191766372775 / 332306998946228968225951765070086144" 66 5590003315689898] by simp

lemma round_38: "binary64 (14032259733204771 / 36893488147419103232) = 3508064933301193 / 9223372036854775808"
  using binary64_tie [of "14032259733204771 / 36893488147419103232" 64 7016129866602385] by simp

lemma round_39: "binary64 (9219863971921474615 / 9223372036854775808) = 9003773410079565 / 9007199254740992"
  using binary64_small [of "9219863971921474615 / 9223372036854775808" 53 9003773410079565] by simp

lemma round_40: "binary64 (2810775991347677 / 72057594037927936) = 2810775991347677 / 72057594037927936"
  using binary64_small [of "2810775991347677 / 72057594037927936" 57 5621551982695354] by simp

lemma round_41: "binary64 (17907453840876050167 / 72057594037927936) = 8743873945740259 / 35184372088832"
  using binary64_small [of "17907453840876050167 / 72057594037927936" 45 8743873945740259] by simp

lemma round_sin_1:
  "binary64 (sin (5030569068109113 / 288230376151711744)) = 2515156836085391 / 144115188075855872"
proof -
  define x :: real where "x = 5030569068109113 / 288230376151711744"
  define p where "p = x - x ^ 3 / 6 + x ^ 5 / 120 - x ^ 7 / 5040"
  have "\<bar>x\<bar> ^ 9 / 362880 \<le> (1 / 10 ^ 1) / 2 ^ 58"
    unfolding x_def by (simp add: power_divide)
  then have b: "\<bar>sin x - p\<bar> \<le> (1 / 10 ^ 1) / 2 ^ 58"
    using sin_poly7 [of x] unfolding p_def by linarith
  have v: "\<bar>p * 2 ^ 58 - of_int 5030313672170782\<bar> + 1 / 10 ^ 1 < 1 / 2"
    unfolding p_def x_def by (simp add: power_divide)
  have "binary64 (sin x) = of_int 5030313672170782 / 2 ^ 58"
    using b v by (rule binary64_approx) simp_all
  then show ?thesis
    unfolding x_def by simp
qed

lemma round_sin_2:
  "binary64 (sin (5030569068109113 / 576460752303423488)) = 5030505218395169 / 576460752303423488"
proof -
  define x :: real where "x = 5030569068109113 / 576460752303423488"
  define p where "p = x - x ^ 3 / 6 + x ^ 5 / 120 - x ^ 7 / 5040"
  have "\<bar>x\<bar> ^ 9 / 362880 \<le> (1 / 10 ^ 1) / 2 ^ 59"
    unfolding x_def by (simp add: power_divide)
  then have b: "\<bar>sin x - p\<bar> \<le> (1 / 10 ^ 1) / 2 ^ 59"
    using sin_poly7 [of x] unfolding p_def by linarith
  have v: "\<bar>p * 2 ^ 59 - of_int 5030505218395169\<bar> + 1 / 10 ^ 1 < 1 / 2"
    unfolding p_def x_def by (simp add: power_divide)
  have "binary64 (sin x) = of_int 5030505218395169 / 2 ^ 59"
    using b v by (rule binary64_approx) simp_all
  then show ?thesis
    unfolding x_def by simp
qed

lemma round_cos_3:
  "binary64 (cos (7545853602163669 / 144115188075855872)) = 8994855201203741 / 9007199254740992"
proof -
  define x :: real where "x = 7545853602163669 / 144115188075855872"
  define p where "p = 1 - x ^ 2 / 2 + x ^ 4 / 24 - x ^ 6 / 720 + x ^ 8 / 40320 - x ^ 10 / 3628800"
  have "\<bar>x\<bar> ^ 12 / 479001600 \<le> (1 / 10 ^ 1) / 2 ^ 53"
    unfolding x_def by (simp add: power_divide)
  then have b: "\<bar>cos x - p\<bar> \<le> (1 / 10 ^ 1) / 2 ^ 53"
    using cos_poly10 [of x] unfolding p_def by linarith
  have v: "\<bar>p * 2 ^ 53 - of_int 8994855201203741\<bar> + 1 / 10 ^ 1 < 1 / 2"
    unfolding p_def x_def by (simp add: power_divide)
  have "binary64 (cos x) = of_int 8994855201203741 / 2 ^ 53"
    using b v by (rule binary64_approx) simp_all
  then show ?thesis
    unfolding x_def by simp
qed

lemma round_cos_4:
  "binary64 (cos (6288211335136391 / 72057594037927936)) = 4486462071114449 / 4503599627370496"
proof -
  define x :: real where "x = 6288211335136391 / 72057594037927936"
  define p where "p = 1 - x ^ 2 / 2 + x ^ 4 / 24 - x ^ 6 / 720 + x ^ 8 / 40320 - x ^ 10 / 3628800"
  have "\<bar>x\<bar> ^ 12 / 479001600 \<le> (1 / 10 ^ 1) / 2 ^ 53"
    unfolding x_def by (simp add: power_divide)
  then have b: "\<bar>cos x - p\<bar> \<le> (1 / 10 ^ 1) / 2 ^ 53"
    using cos_poly10 [of x] unfolding p_def by linarith
  have v: "\<bar>p * 2 ^ 53 - of_int 8972924142228898\<bar> + 1 / 10 ^ 1 < 1 / 2"
    unfolding p_def x_def by (simp add: power_divide)
  have "binary64 (cos x) = of_int 8972924142228898 / 2 ^ 53"
    using b v by (rule binary64_approx) simp_all
  then show ?thesis
    unfolding x_def by simp
qed

lemma round_sqrt_1:
  "binary64 (sqrt (7016129866602385 / 18446744073709551616)) = 2810597794634333 / 144115188075855872"
proof -
  have "binary64 (sqrt (7016129866602385 / 18446744073709551616)) = of_int 5621195589268666 / 2 ^ 58"
    by (rule binary64_sqrt) (simp_all add: power_divide power2_eq_square)
  then show ?thesis
    by simp
qed

lemma round_sqrt_2:
  "binary64 (sqrt (9003773410079565 / 9007199254740992)) = 4502743084751933 / 4503599627370496"
proof -
  have "binary64 (sqrt (9003773410079565 / 9007199254740992)) = of_int 9005486169503866 / 2 ^ 53"
    by (rule binary64_sqrt) (simp_all add: power_divide power2_eq_square)
  then show ?thesis
    by simp
qed

lemma round_sqrt_3:
  "binary64 (sqrt (3508064933301193 / 9223372036854775808)) = 5621195589268667 / 288230376151711744"
proof -
  have "binary64 (sqrt (3508064933301193 / 9223372036854775808)) = of_int 5621195589268667 / 2 ^ 58"
    by (rule binary64_sqrt) (simp_all add: power_divide power2_eq_square)
  then show ?thesis
    by simp
qed

lemma round_arctan_1:
  "binary64 (arctan (2810597794634333 / 144087778712061856)) = 5621551982695353 / 288230376151711744"
proof -
  define x :: real where "x = 2810597794634333 / 144087778712061856"
  define p where "p = x - x ^ 3 / 3 + x ^ 5 / 5 - x ^ 7 / 7 + x ^ 9 / 9"
  have x: "0 \<le> x" "x \<le> 1"
    unfolding x_def by simp_all
  have "x ^ 11 / 11 \<le> (1 / 10 ^ 1) / 2 ^ 58"
    unfolding x_def by (simp add: power_divide)
  then have b: "\<bar>arctan x - p\<bar> \<le> (1 / 10 ^ 1) / 2 ^ 58"
    using arctan_poly9 [OF x] unfolding p_def by linarith
  have v: "\<bar>p * 2 ^ 58 - of_int 5621551982695353\<bar> + 1 / 10 ^ 1 < 1 / 2"
    unfolding p_def x_def by (simp add: power_divide)
  have "binary64 (arctan x) = of_int 5621551982695353 / 2 ^ 58"
    using b v by (rule binary64_approx) simp_all
  then show ?thesis
    unfolding x_def by simp
qed

lemma round_arctan_2:
  "binary64 (arctan (5621195589268667 / 288175557424123712)) = 2810775991347677 / 144115188075855872"
proof -
  define x :: real where "x = 5621195589268667 / 288175557424123712"
  define p where "p = x - x ^ 3 / 3 + x ^ 5 / 5 - x ^ 7 / 7 + x ^ 9 / 9"
  have x: "0 \<le> x" "x \<le> 1"
    unfolding x_def by simp_all
  have "x ^ 11 / 11 \<le> (1 / 10 ^ 1) / 2 ^ 58"
    unfolding x_def by (simp add: power_divide)
  then have b: "\<bar>arctan x - p\<bar> \<le> (1 / 10 ^ 1) / 2 ^ 58"
    using arctan_poly9 [OF x] unfolding p_def by linarith
  have v: "\<bar>p * 2 ^ 58 - of_int 5621551982695354\<bar> + 1 / 10 ^ 1 < 1 / 2"
    unfolding p_def x_def by (simp add: power_divide)
  have "binary64 (arctan x) = of_int 5621551982695354 / 2 ^ 58"
    using b v by (rule binary64_approx) simp_all
  then show ?thesis
    unfolding x_def by simp
qed


lemmas roundings = binary64_minus
  round_1 round_2 round_3 round_4 round_5 round_6 round_7 round_8 round_9 round_10 round_11 round_12 round_13 round_14 round_15 round_16 round_17 round_18 round_19 round_20 round_21 round_22 round_23 round_24 round_25 round_26 round_27 round_28 round_29 round_30 round_31 round_32 round_33 round_34 round_35 round_36 round_37 round_38 round_39 round_40 round_41 round_sin_1 round_sin_2 round_cos_3 round_cos_4 round_sqrt_1 round_sqrt_2 round_sqrt_3 round_arctan_1 round_arctan_2

lemmas float64_ops =
  plus_float64_def minus_float64_def times_float64_def divide_float64_def abs_float64_def
  uminus_float64_def Math_sin64_def Math_cos64_def Math_sqrt64_def Math_atan2_64_def
  Math_PI64_def coord64_def

lemma upt4: "[0..<4] = [0, 1, 2, 3]"
  by (simp add: upt_rec)

lemma area_forward:
  "calculatePolygonArea64 (map coord64 [(0, 0), (1, 0), (2, 1), (0, 0)]) =
     dbl (6482131151885813 / 1048576)"
  by (simp add: calculatePolygonArea64_def Let_def upt4 float64_ops roundings)

lemma area_backward:
  "calculatePolygonArea64 (map coord64 (rev [(0, 0), (1, 0), (2, 1), (0, 0)])) =
     dbl (6482131151885961 / 1048576)"
  by (simp add: calculatePolygonArea64_def Let_def upt4 float64_ops roundings)

lemma distance_forward:
  "haversineDistance64 (coord64 (0, 3)) (coord64 (1, 5)) =
     dbl (8743873945740257 / 35184372088832)"
  by (simp add: haversineDistance64_def Let_def float64_ops atan2_def roundings)

lemma distance_backward:
  "haversineDistance64 (coord64 (1, 5)) (coord64 (0, 3)) =
     dbl (8743873945740259 / 35184372088832)"
  by (simp add: haversineDistance64_def Let_def float64_ops atan2_def roundings)

section \<open>GeodesicMath in binary64: finite results\<close>

text \<open>
  Coordinates of a magnitude of at most \<open>2\<^sup>1\<^sup>0\<^sup>0\<^sup>0\<close> have finite radians, sines and
  cosines, and the terms of the area are finite: nothing overflows. (A coordinate of
  \<open>2\<^sup>1\<^sup>0\<^sup>2\<^sup>3\<close> degrees overflows in the multiplication by \<^verbatim>\<open>Math.PI\<close>.)
\<close>

lemma overflow_not_NaN [simp]: "overflow y \<noteq> NaN"
  by (simp add: overflow_def)

lemma rnd_not_NaN: "x \<noteq> NaN \<Longrightarrow> rnd x \<noteq> NaN"
  by (cases x) simp_all

lemma to_radians_finite:
  assumes "\<bar>y\<bar> \<le> 2 ^ 1000"
  shows "\<exists>v. dbl y * Math_PI64 / dbl 180 = dbl v \<and> \<bar>v\<bar> \<le> 2 ^ 1006"
proof -
  have "\<bar>y * (884279719003555 / 2 ^ 48)\<bar> \<le> 2 ^ 1000 * 4"
    unfolding abs_mult using assms by (intro mult_mono) simp_all
  then have "\<bar>y * (884279719003555 / 2 ^ 48)\<bar> \<le> 2 ^ 1002"
    by simp
  from rnd_bounded [OF this] obtain v1 where
    v1: "rnd (Fin (y * (884279719003555 / 2 ^ 48))) = Fin v1" and b1: "\<bar>v1\<bar> \<le> 2 * 2 ^ 1002 + 1"
    by auto
  have "\<bar>v1 / 180\<bar> \<le> 2 ^ 1004"
    using b1 by simp
  from rnd_bounded [OF this] obtain v2 where
    v2: "rnd (Fin (v1 / 180)) = Fin v2" and b2: "\<bar>v2\<bar> \<le> 2 * 2 ^ 1004 + 1"
    by auto
  have "dbl y * Math_PI64 / dbl 180 = dbl v2"
    unfolding times_float64_def divide_float64_def Math_PI64_def float64.sel Fin_times v1
    using v2 by simp
  moreover have "\<bar>v2\<bar> \<le> 2 ^ 1006"
    using b2 by simp
  ultimately show ?thesis by blast
qed

lemma sin64_finite: "\<exists>s. Math_sin64 (dbl v) = dbl s \<and> \<bar>s\<bar> \<le> 3"
proof -
  have "\<bar>sin v\<bar> \<le> 1"
    by simp
  from rnd_bounded [OF this] show ?thesis
    by (auto simp: Math_sin64_def)
qed

lemma cos64_finite: "\<exists>c. Math_cos64 (dbl v) = dbl c \<and> \<bar>c\<bar> \<le> 3"
proof -
  have "\<bar>cos v\<bar> \<le> 1"
    by simp
  from rnd_bounded [OF this] show ?thesis
    by (auto simp: Math_cos64_def)
qed

lemma float64_bounded_op:
  assumes "\<bar>x\<bar> \<le> b" "2 * b + 1 < 2 ^ 1024"
  shows "\<exists>v. F64 (rnd (Fin x)) = dbl v \<and> \<bar>v\<bar> \<le> 2 * b + 1"
  using rnd_bounded [OF assms] by auto

lemma area_term_finite:
  assumes "\<bar>x1\<bar> \<le> 2 ^ 1000" "\<bar>y1\<bar> \<le> 2 ^ 1000" "\<bar>x2\<bar> \<le> 2 ^ 1000" "\<bar>y2\<bar> \<le> 2 ^ 1000"
  shows "\<exists>t. (dbl x2 * Math_PI64 / dbl 180 - dbl x1 * Math_PI64 / dbl 180) *
             (dbl 2 + Math_sin64 (dbl y1 * Math_PI64 / dbl 180) +
              Math_sin64 (dbl y2 * Math_PI64 / dbl 180)) = dbl t"
proof -
  obtain u1 where u1: "dbl x1 * Math_PI64 / dbl 180 = dbl u1" "\<bar>u1\<bar> \<le> 2 ^ 1006"
    using to_radians_finite [OF assms(1)] by blast
  obtain u2 where u2: "dbl x2 * Math_PI64 / dbl 180 = dbl u2" "\<bar>u2\<bar> \<le> 2 ^ 1006"
    using to_radians_finite [OF assms(3)] by blast
  obtain w1 where w1: "dbl y1 * Math_PI64 / dbl 180 = dbl w1"
    using to_radians_finite [OF assms(2)] by blast
  obtain w2 where w2: "dbl y2 * Math_PI64 / dbl 180 = dbl w2"
    using to_radians_finite [OF assms(4)] by blast
  obtain s1 where s1: "Math_sin64 (dbl w1) = dbl s1" "\<bar>s1\<bar> \<le> 3"
    using sin64_finite by blast
  obtain s2 where s2: "Math_sin64 (dbl w2) = dbl s2" "\<bar>s2\<bar> \<le> 3"
    using sin64_finite by blast
  have "\<bar>u2 - u1\<bar> \<le> 2 ^ 1007"
    using u1(2) u2(2) by simp
  from float64_bounded_op [OF this] obtain d where
    d: "dbl u2 - dbl u1 = dbl d" "\<bar>d\<bar> \<le> 2 * 2 ^ 1007 + 1"
    by (auto simp: minus_float64_def)
  have "\<bar>2 + s1\<bar> \<le> 5"
    using s1(2) by simp
  from float64_bounded_op [OF this] obtain f1 where
    f1: "dbl 2 + dbl s1 = dbl f1" "\<bar>f1\<bar> \<le> 2 * 5 + 1"
    by (auto simp: plus_float64_def)
  have "\<bar>f1 + s2\<bar> \<le> 14"
    using f1(2) s2(2) by simp
  from float64_bounded_op [OF this] obtain f2 where
    f2: "dbl f1 + dbl s2 = dbl f2" "\<bar>f2\<bar> \<le> 2 * 14 + 1"
    by (auto simp: plus_float64_def)
  have "\<bar>d * f2\<bar> \<le> (2 * 2 ^ 1007 + 1) * (2 * 14 + 1)"
    unfolding abs_mult using d(2) f2(2) by (intro mult_mono) simp_all
  then have "\<bar>d * f2\<bar> \<le> 2 ^ 1014"
    by simp
  from float64_bounded_op [OF this] obtain t where "dbl d * dbl f2 = dbl t"
    by (auto simp: times_float64_def)
  then show ?thesis
    unfolding u1(1) u2(1) w1 w2 s1(1) s2(1) d(1) f1(1) f2(1) by blast
qed

lemma add_finite_not_NaN:
  assumes "val64 area \<noteq> NaN"
  shows "val64 (area + dbl t) \<noteq> NaN"
  using assms by (cases area; cases "val64 area") (simp_all add: plus_float64_def plus_jsnum_def)

lemma area_result_nonneg:
  assumes "val64 area \<noteq> NaN"
  shows "dbl 0 \<le> \<bar>area * (dbl 6371000 * dbl 6371000) / dbl 2\<bar>"
proof -
  have r2: "dbl 6371000 * dbl 6371000 = dbl 40589641000000"
    by (simp add: times_float64_def round_1)
  have a: "x \<noteq> NaN \<Longrightarrow> rnd (x * Fin 40589641000000) \<noteq> NaN" for x
    by (cases x) (simp_all add: times_jsnum_def)
  have b: "x \<noteq> NaN \<Longrightarrow> rnd (x / Fin 2) \<noteq> NaN" for x
    by (cases x) (simp_all add: divide_jsnum_def)
  have c: "x \<noteq> NaN \<Longrightarrow> Fin 0 \<le> \<bar>x\<bar>" for x
    by (cases x) (simp_all add: abs_jsnum_def less_eq_jsnum_def)
  show ?thesis
    unfolding r2 using c [OF b [OF a [OF assms]]]
    by (simp add: less_eq_float64_def abs_float64_def divide_float64_def times_float64_def)
qed

lemma area64_fold_not_NaN:
  assumes "\<forall>p \<in> set rs. \<bar>fst p\<bar> \<le> 2 ^ 1000 \<and> \<bar>snd p\<bar> \<le> 2 ^ 1000"
    and "\<forall>i \<in> set is. i < length rs" and "val64 area0 \<noteq> NaN"
  shows "val64 (foldl (\<lambda>area i.
            let p1 = map coord64 rs ! i;
                p2 = map coord64 rs ! ((i + 1) mod length (map coord64 rs));
                p1_rad = (fst p1 * Math_PI64 / dbl 180, snd p1 * Math_PI64 / dbl 180);
                p2_rad = (fst p2 * Math_PI64 / dbl 180, snd p2 * Math_PI64 / dbl 180)
            in area + (fst p2_rad - fst p1_rad) *
                      (dbl 2 + Math_sin64 (snd p1_rad) + Math_sin64 (snd p2_rad)))
         area0 is) \<noteq> NaN"
  using assms(2,3)
proof (induction "is" arbitrary: area0)
  case Nil
  then show ?case by simp
next
  case (Cons i "is")
  have i: "i < length rs"
    using Cons.prems by simp
  then have "0 < length rs"
    by (cases rs) simp_all
  then have m: "(i + 1) mod length rs < length rs"
    by (rule mod_less_divisor)
  have pi: "\<bar>fst (rs ! i)\<bar> \<le> 2 ^ 1000" "\<bar>snd (rs ! i)\<bar> \<le> 2 ^ 1000"
    using assms(1) i by simp_all
  have pm: "\<bar>fst (rs ! ((i + 1) mod length rs))\<bar> \<le> 2 ^ 1000"
    "\<bar>snd (rs ! ((i + 1) mod length rs))\<bar> \<le> 2 ^ 1000"
    using assms(1) m by simp_all
  obtain t where
    "(dbl (fst (rs ! ((i + 1) mod length rs))) * Math_PI64 / dbl 180 -
      dbl (fst (rs ! i)) * Math_PI64 / dbl 180) *
     (dbl 2 + Math_sin64 (dbl (snd (rs ! i)) * Math_PI64 / dbl 180) +
      Math_sin64 (dbl (snd (rs ! ((i + 1) mod length rs))) * Math_PI64 / dbl 180)) = dbl t"
    using area_term_finite [OF pi(1) pi(2) pm(1) pm(2)] by blast
  then have step: "(let p1 = map coord64 rs ! i;
                p2 = map coord64 rs ! ((i + 1) mod length (map coord64 rs));
                p1_rad = (fst p1 * Math_PI64 / dbl 180, snd p1 * Math_PI64 / dbl 180);
                p2_rad = (fst p2 * Math_PI64 / dbl 180, snd p2 * Math_PI64 / dbl 180)
            in area0 + (fst p2_rad - fst p1_rad) *
                      (dbl 2 + Math_sin64 (snd p1_rad) + Math_sin64 (snd p2_rad))) =
           area0 + dbl t"
    using i m by (simp add: Let_def coord64_def)
  have "val64 (area0 + dbl t) \<noteq> NaN"
    using Cons.prems(2) by (rule add_finite_not_NaN)
  then show ?case
    using Cons.IH [of "area0 + dbl t"] Cons.prems(1) unfolding foldl_Cons step by simp
qed

section \<open>GeodesicMath in binary64: the area\<close>

text \<open>
  C8, as the code has it. Under binary64 arithmetic the area of a ring is at least 0, for
  every ring whose coordinates are finite numbers of a magnitude of at most \<open>2\<^sup>1\<^sup>0\<^sup>0\<^sup>0\<close>, and
  the area of fewer than three coordinates is 0.
\<close>

theorem area_nonneg_small_rings:
  "((\<forall>p \<in> set ring. \<bar>fst p\<bar> \<le> 2 ^ 1000 \<and> \<bar>snd p\<bar> \<le> 2 ^ 1000) \<longrightarrow>
      dbl 0 \<le> calculatePolygonArea64 (map coord64 ring)) \<and>
   (length coordinates < 3 \<longrightarrow> calculatePolygonArea64 coordinates = dbl 0)"
proof -
  have "dbl 0 \<le> calculatePolygonArea64 (map coord64 ring)"
    if b: "\<forall>p \<in> set ring. \<bar>fst p\<bar> \<le> 2 ^ 1000 \<and> \<bar>snd p\<bar> \<le> 2 ^ 1000"
  proof (cases "length ring < 3")
    case True
    then show ?thesis
      by (simp add: calculatePolygonArea64_def less_eq_float64_def)
  next
    case False
    have "\<forall>i \<in> set [0..<length ring]. i < length ring"
      by simp
    from area64_fold_not_NaN [OF b this, of "dbl 0"] show ?thesis
      using False
      by (simp add: calculatePolygonArea64_def Let_def area_result_nonneg del: foldl_Cons)
  qed
  then show ?thesis
    by (simp add: calculatePolygonArea64_def)
qed

theorem area_nonneg_small_rings_witness:
  "dbl 0 \<le> calculatePolygonArea64 (map coord64 [(0, 0), (1, 0), (2, 1), (0, 0)]) \<and>
   length [(dbl 0, dbl 0), (dbl 1, dbl 0)] < 3 \<and>
   calculatePolygonArea64 [(dbl 0, dbl 0), (dbl 1, dbl 0)] = dbl 0"
  using area_nonneg_small_rings [of "[(0, 0), (1, 0), (2, 1), (0, 0)]" "[(dbl 0, dbl 0), (dbl 1, dbl 0)]"]
  by simp

text \<open>
  C8 as stated fails: the triangle \<open>(0, 0), (1, 0), (2, 1)\<close>, as a closed ring, has the
  area 6181841995.130361 (square metres), and the reversed ring has the area
  6181841995.130502. The terms of line 65 are added in the order of the ring, and the two
  sums round differently.
\<close>

theorem area_changes_under_reversal:
  "calculatePolygonArea64 (map coord64 [(0, 0), (1, 0), (2, 1), (0, 0)]) =
     dbl (6482131151885813 / 2 ^ 20) \<and>
   calculatePolygonArea64 (rev (map coord64 [(0, 0), (1, 0), (2, 1), (0, 0)])) =
     dbl (6482131151885961 / 2 ^ 20) \<and>
   calculatePolygonArea64 (rev (map coord64 [(0, 0), (1, 0), (2, 1), (0, 0)])) \<noteq>
     calculatePolygonArea64 (map coord64 [(0, 0), (1, 0), (2, 1), (0, 0)])"
  using area_forward area_backward by (simp add: rev_map)

section \<open>GeodesicMath in binary64: the distance\<close>

text \<open>
  C9, as the code has it. Under binary64 arithmetic \<open>distance(A, A)\<close> is 0, for every
  coordinate \<open>A\<close> of finite numbers whose latitude has a magnitude of at most \<open>2\<^sup>1\<^sup>0\<^sup>0\<^sup>0\<close>.
\<close>

theorem haversine_zero_on_equal_points:
  assumes "\<bar>snd a\<bar> \<le> 2 ^ 1000"
  shows "haversineDistance64 (coord64 a) (coord64 a) = dbl 0"
proof -
  obtain v where v: "dbl (snd a) * Math_PI64 / dbl 180 = dbl v"
    using to_radians_finite [OF assms] by blast
  obtain c where c: "Math_cos64 (dbl v) = dbl c"
    using cos64_finite by blast
  have z: "dbl x - dbl x = dbl 0" for x
    by (simp add: minus_float64_def)
  have z2: "dbl 0 * Math_PI64 / dbl 180 / dbl 2 = dbl 0"
    by (simp add: float64_ops)
  have s: "Math_sin64 (dbl 0) = dbl 0"
    by (simp add: Math_sin64_def)
  show ?thesis
    unfolding haversineDistance64_def Let_def coord64_def snd_conv fst_conv z z2 s v c
    by (simp add: float64_ops atan2_def)
qed

theorem haversine_zero_on_equal_points_witness:
  "\<bar>snd (0 :: real, 3 :: real)\<bar> \<le> 2 ^ 1000 \<and>
   haversineDistance64 (coord64 (0, 3)) (coord64 (0, 3)) = dbl 0"
  using haversine_zero_on_equal_points [of "(0, 3)"] by simp

text \<open>
  C9 as stated fails: from \<open>(0, 3)\<close> to \<open>(1, 5)\<close> the distance is 248.51584458190976 km,
  and from \<open>(1, 5)\<close> to \<open>(0, 3)\<close> it is 248.51584458190982 km. The product of lines 22 to
  25 takes \<open>cos lat1\<close> before \<open>cos lat2\<close>; with the points exchanged the two factors are
  exchanged, and the product rounds differently.
\<close>

theorem haversine_not_symmetric:
  "haversineDistance64 (coord64 (0, 3)) (coord64 (1, 5)) = dbl (8743873945740257 / 2 ^ 45) \<and>
   haversineDistance64 (coord64 (1, 5)) (coord64 (0, 3)) = dbl (8743873945740259 / 2 ^ 45) \<and>
   haversineDistance64 (coord64 (0, 3)) (coord64 (1, 5)) \<noteq>
     haversineDistance64 (coord64 (1, 5)) (coord64 (0, 3))"
  using distance_forward distance_backward by simp

end
